theory Spec2Isabelle
  imports Main "HOL-Library.Char_ord" "HOL-Library.List_Lexorder" "HOL-Library.Product_Lexorder"
begin

section \<open>JavaScript strings and numbers as the route handlers use them\<close>

text \<open>
  The two Next.js route handlers of the integration guide (\<^verbatim>\<open>app/api/trades/[wallet]/route.ts\<close>
  and \<^verbatim>\<open>pages/api/trades/[wallet].ts\<close>) validate a wallet address and two optional dates
  before they call \<^verbatim>\<open>analyzeTradeHistoryJson\<close>. Strings are lists of characters; the regular
  expressions are anchored (\<^verbatim>\<open>^...$\<close>, no flags), so a string matches only as a whole.
\<close>

definition in_range :: "char \<Rightarrow> char \<Rightarrow> char \<Rightarrow> bool" where
  \<comment> \<open>a character range \<^verbatim>\<open>lo-hi\<close> of a character class, by character code\<close>
  "in_range lo hi c = ((of_char lo :: nat) \<le> of_char c \<and> (of_char c :: nat) \<le> of_char hi)"

definition base58_char :: "char \<Rightarrow> bool" where
  \<comment> \<open>the class \<^verbatim>\<open>[1-9A-HJ-NP-Za-km-z]\<close>\<close>
  "base58_char c =
     (in_range CHR ''1'' CHR ''9'' c \<or> in_range CHR ''A'' CHR ''H'' c \<or>
      in_range CHR ''J'' CHR ''N'' c \<or> in_range CHR ''P'' CHR ''Z'' c \<or>
      in_range CHR ''a'' CHR ''k'' c \<or> in_range CHR ''m'' CHR ''z'' c)"

definition digit_char :: "char \<Rightarrow> bool" where
  \<comment> \<open>the class \<^verbatim>\<open>\d\<close>, which without the unicode flag is \<^verbatim>\<open>[0-9]\<close>\<close>
  "digit_char c = in_range CHR ''0'' CHR ''9'' c"

fun split_dot :: "string \<Rightarrow> string list" where
  \<comment> \<open>\<^verbatim>\<open>s.split('.')\<close>: the pieces between the dots; the empty string gives one empty piece\<close>
  "split_dot [] = [[]]"
| "split_dot (c # cs) =
     (if c = CHR ''.'' then [] # split_dot cs
      else (case split_dot cs of [] \<Rightarrow> [[c]] | p # ps \<Rightarrow> (c # p) # ps))"

datatype jsnum = NaN | Fin int

definition digit_value :: "char \<Rightarrow> int" where
  "digit_value c = int (of_char c) - 48"

definition Number :: "string \<Rightarrow> jsnum" where
  \<comment> \<open>\<^verbatim>\<open>Number(s)\<close> on the pieces the handlers pass to it. The empty string is 0 and a run of
      decimal digits has its decimal value (leading zeros allowed, no octal reading). The
      handlers call \<^verbatim>\<open>parseAndValidateDate\<close> only on strings that passed
      \<^verbatim>\<open>validateDateFormat\<close>, whose pieces are runs of digits; the other numeric literal forms
      of JavaScript (signs, exponents, hexadecimal, surrounding blanks) and the rounding of
      long literals to doubles are not modelled: such a piece reads as NaN here.\<close>
  "Number s =
     (if s = [] then Fin 0
      else if list_all digit_char s
      then Fin (foldl (\<lambda>a c. 10 * a + digit_value c) 0 s) else NaN)"

definition js_lt :: "jsnum \<Rightarrow> int \<Rightarrow> bool" where
  \<comment> \<open>\<^verbatim>\<open>x < k\<close>: false when x is NaN\<close>
  "js_lt x k = (case x of NaN \<Rightarrow> False | Fin v \<Rightarrow> v < k)"

definition js_gt :: "jsnum \<Rightarrow> int \<Rightarrow> bool" where
  \<comment> \<open>\<^verbatim>\<open>x > k\<close>: false when x is NaN\<close>
  "js_gt x k = (case x of NaN \<Rightarrow> False | Fin v \<Rightarrow> v > k)"

definition js_minus :: "jsnum \<Rightarrow> int \<Rightarrow> jsnum" where
  "js_minus x k = (case x of NaN \<Rightarrow> NaN | Fin v \<Rightarrow> Fin (v - k))"

definition element :: "jsnum list \<Rightarrow> nat \<Rightarrow> jsnum" where
  \<comment> \<open>array destructuring: a missing element is \<^verbatim>\<open>undefined\<close>, which compares and
      converts as NaN\<close>
  "element xs i = (if i < length xs then xs ! i else NaN)"

section \<open>The Date constructor\<close>

text \<open>
  \<^verbatim>\<open>new Date(year, monthIndex, day)\<close> is local midnight of the given day, with ECMAScript's
  MakeDay arithmetic: a month index outside 0..11 carries into the year and the day of the
  month is added to the first of the month as a plain offset, so a day past the end of the
  month rolls over into the following month. A Date is represented by its local day number
  (days since 1 January 1970); the time of day is always midnight and the zone offset is
  left out, so the order of two Dates is the order of their day numbers.
\<close>

type_synonym Date = int

definition DayFromYear :: "int \<Rightarrow> int" where
  "DayFromYear y =
     365 * (y - 1970) + (y - 1969) div 4 - (y - 1901) div 100 + (y - 1601) div 400"

definition InLeapYear :: "int \<Rightarrow> bool" where
  "InLeapYear y = (y mod 4 = 0 \<and> (y mod 100 \<noteq> 0 \<or> y mod 400 = 0))"

definition DaysInMonth :: "int \<Rightarrow> int \<Rightarrow> int" where
  \<comment> \<open>length of the month with index m (0 = January) in year y\<close>
  "DaysInMonth y m =
     (if m = 1 then (if InLeapYear y then 29 else 28)
      else if m = 3 \<or> m = 5 \<or> m = 8 \<or> m = 10 then 30 else 31)"

fun DaysBeforeMonth :: "int \<Rightarrow> nat \<Rightarrow> int" where
  \<comment> \<open>days of year y before the month with index m\<close>
  "DaysBeforeMonth y 0 = 0"
| "DaysBeforeMonth y (Suc m) = DaysBeforeMonth y m + DaysInMonth y (int m)"

definition MakeDay :: "int \<Rightarrow> int \<Rightarrow> int \<Rightarrow> int" where
  "MakeDay year month date =
     (let ym = year + month div 12; mn = month mod 12
      in DayFromYear ym + DaysBeforeMonth ym (nat mn) + date - 1)"

definition new_Date :: "jsnum \<Rightarrow> jsnum \<Rightarrow> jsnum \<Rightarrow> Date option" where
  \<comment> \<open>None is the Invalid Date, whose \<^verbatim>\<open>getTime()\<close> is NaN; a year in 0..99 means 1900 + year\<close>
  "new_Date year month day =
     (case (year, month, day) of
        (Fin y, Fin m, Fin d) \<Rightarrow>
          Some (MakeDay (if 0 \<le> y \<and> y \<le> 99 then 1900 + y else y) m d)
      | _ \<Rightarrow> None)"

section \<open>App Router: \<^verbatim>\<open>app/api/trades/[wallet]/route.ts\<close>\<close>

definition validateWalletAddress :: "string \<Rightarrow> bool" where
  \<comment> \<open>\<^verbatim>\<open>/^[1-9A-HJ-NP-Za-km-z]{32,44}$/.test(wallet)\<close>\<close>
  "validateWalletAddress wallet =
     (list_all base58_char wallet \<and> 32 \<le> length wallet \<and> length wallet \<le> 44)"

definition digits_between :: "nat \<Rightarrow> nat \<Rightarrow> string \<Rightarrow> bool" where
  \<comment> \<open>\<^verbatim>\<open>\d{lo,hi}\<close> matching a whole piece\<close>
  "digits_between lo hi s = (list_all digit_char s \<and> lo \<le> length s \<and> length s \<le> hi)"

definition validateDateFormat :: "string \<Rightarrow> bool" where
  \<comment> \<open>\<^verbatim>\<open>/^\d{1,2}\.\d{1,2}\.\d{4}$/.test(date)\<close>: digits and the dot are disjoint classes, so
      the string matches exactly when its two dots cut it into three runs of digits of
      lengths 1-2, 1-2 and 4\<close>
  "validateDateFormat date =
     (case split_dot date of
        [d, m, y] \<Rightarrow> digits_between 1 2 d \<and> digits_between 1 2 m \<and> digits_between 4 4 y
      | _ \<Rightarrow> False)"

definition parseAndValidateDate :: "string \<Rightarrow> string + Date" where
  \<comment> \<open>\<^verbatim>\<open>Inl msg\<close> is \<^verbatim>\<open>throw new Error(msg)\<close>\<close>
  "parseAndValidateDate dateString =
     (let parts = map Number (split_dot dateString);
          day = element parts 0; month = element parts 1; year = element parts 2
      in if js_lt day 1 \<or> js_gt day 31 then Inl ''Invalid day''
         else if js_lt month 1 \<or> js_gt month 12 then Inl ''Invalid month''
         else if js_lt year 2020 \<or> js_gt year 2030 then Inl ''Invalid year''
         else (case new_Date year (js_minus month 1) day of
                 None \<Rightarrow> Inl ''Invalid date''
               | Some date \<Rightarrow> Inr date))"


text \<open>
  A response is its status code, its JSON body (an \<^verbatim>\<open>{ error: msg }\<close> object or the trade data)
  and the \<^verbatim>\<open>Cache-Control\<close> header when set. \<^verbatim>\<open>analyzeTradeHistoryJson\<close> lives in
  \<^verbatim>\<open>output.ts\<close> and reaches the RPC provider; the handlers take it as a parameter that either
  returns the trades or throws. A handler returns its response together with the list of
  calls it made to that function (the arguments of each call), so that "no network call"
  is the empty list.
\<close>

datatype 'a body = ErrorBody string | Trades 'a

record 'a response =
  status :: nat
  body :: "'a body"
  cache_control :: "string option"

datatype thrown = Error string | NonError

type_synonym call = "string option \<times> string \<times> string option"

type_synonym 'a analyzer = "string option \<Rightarrow> string \<Rightarrow> string option \<Rightarrow> thrown + 'a"

definition json_error :: "string \<Rightarrow> nat \<Rightarrow> 'a response" where
  \<comment> \<open>\<^verbatim>\<open>NextResponse.json({ error: msg }, { status: code })\<close>\<close>
  "json_error msg code = \<lparr>status = code, body = ErrorBody msg, cache_control = None\<rparr>"

fun starts_with :: "string \<Rightarrow> string \<Rightarrow> bool" where
  "starts_with s [] = True"
| "starts_with [] (c # cs) = False"
| "starts_with (x # xs) (c # cs) = (x = c \<and> starts_with xs cs)"

fun js_includes :: "string \<Rightarrow> string \<Rightarrow> bool" where
  \<comment> \<open>\<^verbatim>\<open>s.includes(sub)\<close>\<close>
  "js_includes [] sub = (sub = [])"
| "js_includes (x # xs) sub = (starts_with (x # xs) sub \<or> js_includes xs sub)"

definition truthy :: "string option \<Rightarrow> bool" where
  \<comment> \<open>\<^verbatim>\<open>if (x)\<close> on a \<^verbatim>\<open>string | null | undefined\<close>: null, undefined and the empty string are falsy\<close>
  "truthy x = (case x of None \<Rightarrow> False | Some s \<Rightarrow> s \<noteq> [])"

definition catch_error :: "thrown \<Rightarrow> 'a response" where
  \<comment> \<open>the \<^verbatim>\<open>catch (error)\<close> block of the handler\<close>
  "catch_error e =
     (case e of
        Error message \<Rightarrow>
          if js_includes message ''rate limit'' \<or> js_includes message ''429''
          then json_error ''Rate limited. Please try again later.'' 429
          else if js_includes message ''Invalid'' then json_error message 400
          else json_error ''Internal server error'' 500
      | NonError \<Rightarrow> json_error ''Internal server error'' 500)"

definition ok_response :: "'a \<Rightarrow> 'a response" where
  \<comment> \<open>\<^verbatim>\<open>NextResponse.json(trades)\<close> with the \<^verbatim>\<open>Cache-Control\<close> header set\<close>
  "ok_response trades =
     \<lparr>status = 200, body = Trades trades,
      cache_control = Some ''public, s-maxage=60, stale-while-revalidate=300''\<rparr>"

definition searchParams_get :: "string list \<Rightarrow> string option" where
  \<comment> \<open>\<^verbatim>\<open>searchParams.get(name)\<close>, given the values the query string holds for the name, in
      order: the first value, or null when there is none\<close>
  "searchParams_get values = (case values of [] \<Rightarrow> None | v # _ \<Rightarrow> Some v)"

definition GET_from_date :: "string option \<Rightarrow> 'a response + string option" where
  \<comment> \<open>the \<^verbatim>\<open>if (from_date) { ... }\<close> block: \<^verbatim>\<open>Inl\<close> is an early return of a response,
      \<^verbatim>\<open>Inr\<close> the value left in \<^verbatim>\<open>fromDate\<close> (None for \<^verbatim>\<open>undefined\<close>)\<close>
  "GET_from_date from_date =
     (if truthy from_date then
        (case from_date of
           None \<Rightarrow> Inr None
         | Some d \<Rightarrow>
             if \<not> validateDateFormat d
             then Inl (json_error ''Invalid from_date format. Use DD.MM.YYYY'' 400)
             else (case parseAndValidateDate d of
                     Inl message \<Rightarrow> Inl (json_error (''Invalid from_date: '' @ message) 400)
                   | Inr _ \<Rightarrow> Inr (Some d)))
      else Inr None)"

definition GET_to_date :: "string option \<Rightarrow> 'a response + string option" where
  \<comment> \<open>the \<^verbatim>\<open>if (to_date) { ... }\<close> block\<close>
  "GET_to_date to_date =
     (if truthy to_date then
        (case to_date of
           None \<Rightarrow> Inr None
         | Some d \<Rightarrow>
             if \<not> validateDateFormat d
             then Inl (json_error ''Invalid to_date format. Use DD.MM.YYYY'' 400)
             else (case parseAndValidateDate d of
                     Inl message \<Rightarrow> Inl (json_error (''Invalid to_date: '' @ message) 400)
                   | Inr _ \<Rightarrow> Inr (Some d)))
      else Inr None)"

definition GET_date_range :: "string option \<Rightarrow> string option \<Rightarrow> 'a response option" where
  \<comment> \<open>the \<^verbatim>\<open>if (fromDate && toDate) { ... }\<close> block: Some is an early return; an error
      thrown by \<^verbatim>\<open>parseAndValidateDate\<close> here would reach the \<^verbatim>\<open>catch\<close> block\<close>
  "GET_date_range fromDate toDate =
     (if truthy fromDate \<and> truthy toDate then
        (case (fromDate, toDate) of
           (Some f, Some t) \<Rightarrow>
             (case parseAndValidateDate f of
                Inl message \<Rightarrow> Some (catch_error (Error message))
              | Inr from \<Rightarrow>
                 (case parseAndValidateDate t of
                    Inl message \<Rightarrow> Some (catch_error (Error message))
                  | Inr to \<Rightarrow>
                     if from \<ge> to
                     then Some (json_error ''from_date must be earlier than to_date'' 400)
                     else None))
         | _ \<Rightarrow> None)
      else None)"

definition GET :: "'a analyzer \<Rightarrow> string \<Rightarrow> string option \<Rightarrow> string option \<Rightarrow> 'a response \<times> call list" where
  \<comment> \<open>\<^verbatim>\<open>wallet\<close> is \<^verbatim>\<open>params.wallet\<close>; \<^verbatim>\<open>from_date\<close> and \<^verbatim>\<open>to_date\<close> are
      \<^verbatim>\<open>searchParams.get(...)\<close>, None when the parameter is absent\<close>
  "GET analyzeTradeHistoryJson wallet from_date to_date =
     (if wallet = [] then (json_error ''Wallet address is required'' 400, [])
      else if \<not> validateWalletAddress wallet
      then (json_error ''Invalid wallet address format'' 400, [])
      else
       (case GET_from_date from_date of
          Inl r \<Rightarrow> (r, [])
        | Inr fromDate \<Rightarrow>
           (case GET_to_date to_date of
              Inl r \<Rightarrow> (r, [])
            | Inr toDate \<Rightarrow>
               (case GET_date_range fromDate toDate of
                  Some r \<Rightarrow> (r, [])
                | None \<Rightarrow>
                   ((case analyzeTradeHistoryJson fromDate wallet toDate of
                       Inl e \<Rightarrow> catch_error e
                     | Inr trades \<Rightarrow> ok_response trades),
                    [(fromDate, wallet, toDate)])))))"

section \<open>Pages Router: \<^verbatim>\<open>pages/api/trades/[wallet].ts\<close>\<close>

text \<open>
  The Pages Router file declares its own copies of the three validation functions and reads
  \<^verbatim>\<open>wallet\<close>, \<^verbatim>\<open>from_date\<close> and \<^verbatim>\<open>to_date\<close> from \<^verbatim>\<open>req.query\<close>, whose values have type
  \<^verbatim>\<open>string | string[] | undefined\<close>.
\<close>

datatype qval = Str string | Arr "string list"

definition req_query :: "string list \<Rightarrow> qval option" where
  \<comment> \<open>\<^verbatim>\<open>req.query[name]\<close>, given the values the query string holds for the name, in order:
      undefined when there is none, the string when there is one, the array of all of them
      when the parameter is repeated\<close>
  "req_query values =
     (case values of [] \<Rightarrow> None | [v] \<Rightarrow> Some (Str v) | _ \<Rightarrow> Some (Arr values))"

definition pages_validateWalletAddress :: "string \<Rightarrow> bool" where
  \<comment> \<open>\<^verbatim>\<open>/^[1-9A-HJ-NP-Za-km-z]{32,44}$/.test(wallet)\<close>\<close>
  "pages_validateWalletAddress wallet =
     (list_all base58_char wallet \<and> 32 \<le> length wallet \<and> length wallet \<le> 44)"

definition pages_validateDateFormat :: "string \<Rightarrow> bool" where
  \<comment> \<open>\<^verbatim>\<open>/^\d{1,2}\.\d{1,2}\.\d{4}$/.test(date)\<close>\<close>
  "pages_validateDateFormat date =
     (case split_dot date of
        [d, m, y] \<Rightarrow> digits_between 1 2 d \<and> digits_between 1 2 m \<and> digits_between 4 4 y
      | _ \<Rightarrow> False)"

definition pages_parseAndValidateDate :: "string \<Rightarrow> string + Date" where
  "pages_parseAndValidateDate dateString =
     (let parts = map Number (split_dot dateString);
          day = element parts 0; month = element parts 1; year = element parts 2
      in if js_lt day 1 \<or> js_gt day 31 then Inl ''Invalid day''
         else if js_lt month 1 \<or> js_gt month 12 then Inl ''Invalid month''
         else if js_lt year 2020 \<or> js_gt year 2030 then Inl ''Invalid year''
         else (case new_Date year (js_minus month 1) day of
                 None \<Rightarrow> Inl ''Invalid date''
               | Some date \<Rightarrow> Inr date))"

definition truthy_q :: "qval option \<Rightarrow> bool" where
  \<comment> \<open>\<^verbatim>\<open>if (x)\<close> on a query value: undefined and the empty string are falsy, an array is truthy\<close>
  "truthy_q x = (case x of None \<Rightarrow> False | Some (Str s) \<Rightarrow> s \<noteq> [] | Some (Arr _) \<Rightarrow> True)"

definition handler_from_date :: "qval option \<Rightarrow> 'a response + string option" where
  \<comment> \<open>the \<^verbatim>\<open>if (from_date) { ... }\<close> block\<close>
  "handler_from_date from_date =
     (if truthy_q from_date then
        (case from_date of
           Some (Str d) \<Rightarrow>
             if \<not> pages_validateDateFormat d
             then Inl (json_error ''Invalid from_date format. Use DD.MM.YYYY'' 400)
             else (case pages_parseAndValidateDate d of
                     Inl message \<Rightarrow> Inl (json_error (''Invalid from_date: '' @ message) 400)
                   | Inr _ \<Rightarrow> Inr (Some d))
         | _ \<Rightarrow> Inl (json_error ''Invalid from_date format. Use DD.MM.YYYY'' 400))
      else Inr None)"

definition handler_to_date :: "qval option \<Rightarrow> 'a response + string option" where
  \<comment> \<open>the \<^verbatim>\<open>if (to_date) { ... }\<close> block\<close>
  "handler_to_date to_date =
     (if truthy_q to_date then
        (case to_date of
           Some (Str d) \<Rightarrow>
             if \<not> pages_validateDateFormat d
             then Inl (json_error ''Invalid to_date format. Use DD.MM.YYYY'' 400)
             else (case pages_parseAndValidateDate d of
                     Inl message \<Rightarrow> Inl (json_error (''Invalid to_date: '' @ message) 400)
                   | Inr _ \<Rightarrow> Inr (Some d))
         | _ \<Rightarrow> Inl (json_error ''Invalid to_date format. Use DD.MM.YYYY'' 400))
      else Inr None)"

definition handler_date_range :: "string option \<Rightarrow> string option \<Rightarrow> 'a response option" where
  \<comment> \<open>the \<^verbatim>\<open>if (fromDate && toDate) { ... }\<close> block\<close>
  "handler_date_range fromDate toDate =
     (if truthy fromDate \<and> truthy toDate then
        (case (fromDate, toDate) of
           (Some f, Some t) \<Rightarrow>
             (case pages_parseAndValidateDate f of
                Inl message \<Rightarrow> Some (catch_error (Error message))
              | Inr from \<Rightarrow>
                 (case pages_parseAndValidateDate t of
                    Inl message \<Rightarrow> Some (catch_error (Error message))
                  | Inr to \<Rightarrow>
                     if from \<ge> to
                     then Some (json_error ''from_date must be earlier than to_date'' 400)
                     else None))
         | _ \<Rightarrow> None)
      else None)"

definition handler ::
  "'a analyzer \<Rightarrow> string \<Rightarrow> qval option \<Rightarrow> qval option \<Rightarrow> qval option \<Rightarrow> 'a response \<times> call list" where
  \<comment> \<open>\<^verbatim>\<open>method\<close> is \<^verbatim>\<open>req.method\<close>; the three query values are those of \<^verbatim>\<open>req.query\<close>. The
      \<^verbatim>\<open>catch\<close> block and the success response are the same as the App Router's, written with
      \<^verbatim>\<open>res.status(...).json(...)\<close> and \<^verbatim>\<open>res.setHeader\<close>.\<close>
  "handler analyzeTradeHistoryJson method wallet from_date to_date =
     (if method \<noteq> ''GET'' then (json_error ''Method not allowed'' 405, [])
      else
       (case wallet of
          Some (Str w) \<Rightarrow>
            if w = [] then (json_error ''Wallet address is required'' 400, [])
            else if \<not> pages_validateWalletAddress w
            then (json_error ''Invalid wallet address format'' 400, [])
            else
             (case handler_from_date from_date of
                Inl r \<Rightarrow> (r, [])
              | Inr fromDate \<Rightarrow>
                 (case handler_to_date to_date of
                    Inl r \<Rightarrow> (r, [])
                  | Inr toDate \<Rightarrow>
                     (case handler_date_range fromDate toDate of
                        Some r \<Rightarrow> (r, [])
                      | None \<Rightarrow>
                         ((case analyzeTradeHistoryJson fromDate w toDate of
                             Inl e \<Rightarrow> catch_error e
                           | Inr trades \<Rightarrow> ok_response trades),
                          [(fromDate, w, toDate)]))))
        | _ \<Rightarrow> (json_error ''Wallet address is required'' 400, [])))"

definition returning :: "'a \<Rightarrow> 'a analyzer" where
  \<comment> \<open>an \<^verbatim>\<open>analyzeTradeHistoryJson\<close> that returns the given data, to run a handler on a
      concrete request\<close>
  "returning trades fromDate wallet toDate = Inr trades"

section \<open>The retrieval and reconstruction pipeline, from its specification\<close>

text \<open>
  The pipeline itself (\<^verbatim>\<open>output.ts\<close>: the fetcher, the signature retrieval and the lifecycle
  reconstruction) is not among the sources, which hold the two route handlers, the type
  declarations and the performance notes. The definitions of this section follow the
  specification's sections 3 and 4 instead; each says which component it stands for.
\<close>

type_synonym Address = string

type_synonym Signature = string

subsection \<open>RateLimitedFetcher (4.1)\<close>

text \<open>
  Modelled from the spec: the failure taxonomy of section 7 and the provider's answer to one
  attempt of one request. \<^verbatim>\<open>RateLimited\<close> and \<^verbatim>\<open>TransientNetwork\<close> are retriable,
  \<^verbatim>\<open>NotFound\<close> and \<^verbatim>\<open>Malformed\<close> are not.
\<close>

datatype failure = RateLimited | TransientNetwork | NotFound | Malformed

datatype 'r reply = Reply 'r | Failure failure

definition retriable :: "failure \<Rightarrow> bool" where
  "retriable f = (f = RateLimited \<or> f = TransientNetwork)"

text \<open>
  Modelled from the spec: the retry policy \<^verbatim>\<open>{max attempts, base delay, backoff factor}\<close> of
  sections 4.1 and 9, with the default of 3 attempts. The specification names no default
  base delay or factor, so the default policy takes them as arguments.
\<close>

record retry_policy =
  max_attempts :: nat
  base_delay :: nat
  backoff_factor :: nat

definition default_policy :: "nat \<Rightarrow> nat \<Rightarrow> retry_policy" where
  "default_policy base factor =
     \<lparr>max_attempts = 3, base_delay = base, backoff_factor = factor\<rparr>"

record 'r item_result =
  outcome :: "'r reply"
  attempts :: nat
  waited :: nat

text \<open>
  Modelled from the spec: one request run under the retry policy of 4.1. The provider is a
  function from the request and the number of the attempt (from 1) to its answer. A
  retriable failure before the cap is followed by a backoff delay of
  \<open>base_delay * backoff_factor ^ (n - 1)\<close> after attempt \<open>n\<close> and then by the next attempt;
  a non-retriable failure, or a retriable one at the cap, is the item's typed failure. The
  result records the attempts made and the backoff time waited.
\<close>

function attempt ::
  "('q \<Rightarrow> nat \<Rightarrow> 'r reply) \<Rightarrow> retry_policy \<Rightarrow> 'q \<Rightarrow> nat \<Rightarrow> nat \<Rightarrow> 'r item_result" where
  "attempt provider policy request n delay =
     (case provider request n of
        Reply r \<Rightarrow> \<lparr>outcome = Reply r, attempts = n, waited = delay\<rparr>
      | Failure f \<Rightarrow>
          if retriable f \<and> n < max_attempts policy
          then attempt provider policy request (Suc n)
                 (delay + base_delay policy * backoff_factor policy ^ (n - 1))
          else \<lparr>outcome = Failure f, attempts = n, waited = delay\<rparr>)"
  by pat_completeness auto
termination
  by (relation "measure (\<lambda>(provider, policy, request, n, delay). max_attempts policy - n)") auto

text \<open>
  Modelled from the spec: \<^verbatim>\<open>execute\<close> of 4.1, which returns one result per request, in the
  order of the batch. The concurrency limit and the minimum delay between calls shape the
  schedule only (4.1 calls the delay "not a correctness requirement") and are not part of
  the result.
\<close>

definition execute ::
  "('q \<Rightarrow> nat \<Rightarrow> 'r reply) \<Rightarrow> retry_policy \<Rightarrow> 'q list \<Rightarrow> 'r item_result list" where
  "execute provider policy batch = map (\<lambda>request. attempt provider policy request 1 0) batch"

subsection \<open>SignatureRetriever (4.3)\<close>

text \<open>
  Modelled from the spec: a transaction signature as the provider lists it, with the block
  time that orders it (section 3).
\<close>

record SignatureEntry =
  entry_signature :: Signature
  block_time :: int

definition older_than :: "int option \<Rightarrow> SignatureEntry \<Rightarrow> bool" where
  \<comment> \<open>older than \<^verbatim>\<open>from_date\<close>; an entry exactly at the boundary is not\<close>
  "older_than from_date x = (case from_date of None \<Rightarrow> False | Some f \<Rightarrow> block_time x < f)"

definition newer_than :: "int option \<Rightarrow> SignatureEntry \<Rightarrow> bool" where
  \<comment> \<open>newer than \<^verbatim>\<open>to_date\<close>\<close>
  "newer_than to_date x = (case to_date of None \<Rightarrow> False | Some t \<Rightarrow> t < block_time x)"

text \<open>
  Modelled from the spec: the backward pagination of one address (4.3). The argument
  \<open>remaining\<close> is what the provider still lists before the cursor, newest first; a page is
  its first \<open>limit\<close> entries. Pagination stops on an empty page, or after a page whose
  oldest entry is older than \<^verbatim>\<open>from_date\<close>; entries older than \<^verbatim>\<open>from_date\<close> are not kept.
\<close>

function paginate :: "nat \<Rightarrow> int option \<Rightarrow> SignatureEntry list \<Rightarrow> SignatureEntry list" where
  "paginate limit from_date remaining =
     (if take limit remaining = [] then []
      else if older_than from_date (last (take limit remaining))
      then filter (\<lambda>x. \<not> older_than from_date x) (take limit remaining)
      else filter (\<lambda>x. \<not> older_than from_date x) (take limit remaining)
           @ paginate limit from_date (drop limit remaining))"
  by pat_completeness auto
termination
  by (relation "measure (\<lambda>(limit, from_date, remaining). length remaining)") auto

text \<open>
  Modelled from the spec: deduplication by signature identity (4.3); the first entry of
  each signature is kept.
\<close>

fun dedupe :: "Signature list \<Rightarrow> SignatureEntry list \<Rightarrow> SignatureEntry list" where
  "dedupe seen [] = []"
| "dedupe seen (x # xs) =
     (if entry_signature x \<in> set seen then dedupe seen xs
      else x # dedupe (entry_signature x # seen) xs)"

text \<open>
  Modelled from the spec: \<^verbatim>\<open>retrieve\<close> of 4.3. The provider's listing of an address is
  \<open>history address\<close>, newest first. The per-address sequences are merged, entries newer than
  \<^verbatim>\<open>to_date\<close> are left out, duplicates are removed and the result is ordered by block time
  ascending.
\<close>

definition retrieve ::
  "(Address \<Rightarrow> SignatureEntry list) \<Rightarrow> nat \<Rightarrow> Address list \<Rightarrow> int option \<Rightarrow> int option
     \<Rightarrow> SignatureEntry list" where
  "retrieve history limit addresses from_date to_date =
     sort_key block_time
       (dedupe []
          (filter (\<lambda>x. \<not> newer_than to_date x)
             (concat (map (\<lambda>address. paginate limit from_date (history address)) addresses))))"

subsection \<open>LifecycleReconstructor (3, 4.5)\<close>

text \<open>
  Modelled from the spec: the RawEvent of section 3, a tagged variant with the fields every
  variant carries. Fixed-point quantities are integers in the exchange's decimals.
\<close>

datatype event_kind =
  Open | Increase | Decrease | InstantIncrease | InstantDecrease | Liquidate
  | RequestCreated | RequestCancelled

datatype side = Long | Short

datatype request_type = Market | Limit | StopLoss | TakeProfit | Liquidation

record RawEvent =
  kind :: event_kind
  position_key :: Address
  timestamp :: int
  signature :: Signature
  side :: side
  size_delta :: int
  price :: int
  fee :: int
  collateral_delta :: int
  request_type :: "request_type option"

datatype lifecycle_status = Active | Closed | Liquidated

datatype warning = InconsistentLifecycle

text \<open>
  Modelled from the spec: the PositionLifecycle of section 3, with the fields whose
  computation sections 3 and 4.5 fix: the events folded so far, the status, the running
  size, the direction and entry time set by the first event, the exit time set by the
  terminal event, the sum of the fees, and the \<^verbatim>\<open>InconsistentLifecycle\<close> warning of section 7.
  Entry and exit price, realized PnL, collateral and leverage are left out: the
  specification gives no rounding for them and no property below reads them.
\<close>

record PositionLifecycle =
  key :: Address
  events :: "RawEvent list"
  lifecycle_status :: lifecycle_status
  open_size :: int
  direction :: side
  total_fees :: int
  entry_time :: int
  exit_time :: "int option"
  warnings :: "warning list"

definition opens :: "RawEvent \<Rightarrow> bool" where
  "opens e = (kind e = Open \<or> kind e = InstantIncrease)"

definition increases :: "RawEvent \<Rightarrow> bool" where
  "increases e = (kind e = Increase \<or> kind e = InstantIncrease)"

definition decreases :: "RawEvent \<Rightarrow> bool" where
  "decreases e = (kind e = Decrease \<or> kind e = InstantDecrease)"

definition flagged_liquidation :: "RawEvent \<Rightarrow> bool" where
  "flagged_liquidation e = (request_type e = Some Liquidation)"

definition signed_delta :: "RawEvent \<Rightarrow> int" where
  \<comment> \<open>the size delta with the sign of the event: opening and increasing events add
      exposure, decreasing and liquidating events remove it, request events carry none\<close>
  "signed_delta e =
     (if opens e \<or> increases e then size_delta e
      else if decreases e \<or> kind e = Liquidate then - size_delta e
      else 0)"

definition start :: "RawEvent \<Rightarrow> PositionLifecycle" where
  \<comment> \<open>Uninitialized to Active: the first event establishes the entry\<close>
  "start e =
     \<lparr>key = position_key e, events = [e], lifecycle_status = Active,
      open_size = size_delta e, direction = side e, total_fees = fee e,
      entry_time = timestamp e, exit_time = None, warnings = []\<rparr>"

definition fold_event :: "PositionLifecycle \<Rightarrow> RawEvent \<Rightarrow> PositionLifecycle" where
  \<comment> \<open>the running size and the fees after one more event\<close>
  "fold_event l e =
     l\<lparr>events := events l @ [e], open_size := open_size l + signed_delta e,
       total_fees := total_fees l + fee e\<rparr>"

definition terminate :: "lifecycle_status \<Rightarrow> PositionLifecycle \<Rightarrow> RawEvent \<Rightarrow> PositionLifecycle" where
  \<comment> \<open>the lifecycle becomes terminal; exposure left over is reported as a warning\<close>
  "terminate st l e =
     l\<lparr>lifecycle_status := st, exit_time := Some (timestamp e),
       warnings := (if open_size l \<noteq> 0 then [InconsistentLifecycle] else [])\<rparr>"

text \<open>
  Modelled from the spec: the state machine of 4.5 on one position key. The state is the
  list of finished lifecycles and the current one (None is Uninitialized, also after a
  terminal event, so that the next event starts a new lifecycle). Of the transitions:
  a Liquidate event ends the lifecycle as liquidated regardless of the size left; a decrease
  that brings the size to zero ends it, as closed unless it is flagged as liquidation (4.5
  does not say what a flagged decrease that zeroes the size gives; liquidated is taken here);
  an increase or decrease that leaves a size other than zero stays active. An event for
  which 4.5 lists no transition (a first event that is not Open or InstantIncrease, a
  request event or an Open on an active position) leaves the state as it is.
\<close>

fun step ::
  "PositionLifecycle list \<times> PositionLifecycle option \<Rightarrow> RawEvent
     \<Rightarrow> PositionLifecycle list \<times> PositionLifecycle option" where
  "step (finished, None) e =
     (if opens e then (finished, Some (start e)) else (finished, None))"
| "step (finished, Some l) e =
     (if kind e = Liquidate
      then (finished @ [terminate Liquidated (fold_event l e) e], None)
      else if decreases e \<and> open_size (fold_event l e) = 0
      then (finished @
              [terminate (if flagged_liquidation e then Liquidated else Closed) (fold_event l e) e],
            None)
      else if (increases e \<or> decreases e) \<and> open_size (fold_event l e) \<noteq> 0
      then (finished, Some (fold_event l e))
      else (finished, Some l))"

definition lifecycles :: "PositionLifecycle list \<times> PositionLifecycle option \<Rightarrow> PositionLifecycle list" where
  \<comment> \<open>at the end of the input a lifecycle without terminal event is reported as active\<close>
  "lifecycles st = fst st @ (case snd st of None \<Rightarrow> [] | Some l \<Rightarrow> [l])"

definition run_group :: "RawEvent list \<Rightarrow> PositionLifecycle list" where
  "run_group es = lifecycles (foldl step ([], None) es)"

text \<open>
  Modelled from the spec: \<^verbatim>\<open>reconstruct\<close> of 4.5. Events are grouped by position key (keys
  in the order of their first event), each group is sorted by timestamp with the signature
  as tie-break, and the state machine runs on each group.
\<close>

definition reconstruct :: "RawEvent list \<Rightarrow> PositionLifecycle list" where
  "reconstruct es =
     concat (map (\<lambda>k. run_group (sort_key (\<lambda>e. (timestamp e, signature e))
                                    (filter (\<lambda>e. position_key e = k) es)))
                 (remdups (map position_key es)))"

subsection \<open>The size invariant\<close>

text \<open>
  The invariant of section 3 on one lifecycle, split in two: \<open>sized\<close> relates the running
  size to the events folded so far, \<open>settled\<close> adds what a terminal status says about it (a terminal event is never the first
  event of its lifecycle).
  \<open>state_ok\<close> is the invariant of the state machine's fold.
\<close>

definition sized :: "PositionLifecycle \<Rightarrow> bool" where
  "sized l =
     (events l \<noteq> [] \<and> opens (hd (events l)) \<and>
      open_size l = size_delta (hd (events l)) + sum_list (map signed_delta (tl (events l))))"

definition settled :: "PositionLifecycle \<Rightarrow> bool" where
  "settled l =
     (sized l \<and>
      (lifecycle_status l \<noteq> Active \<longrightarrow> 2 \<le> length (events l)) \<and>
      (lifecycle_status l = Closed \<longrightarrow> open_size l = 0) \<and>
      (lifecycle_status l = Liquidated \<longrightarrow>
         open_size l = 0 \<or> warnings l = [InconsistentLifecycle]))"

definition state_ok :: "PositionLifecycle list \<times> PositionLifecycle option \<Rightarrow> bool" where
  "state_ok st =
     ((\<forall>l \<in> set (fst st). settled l) \<and>
      (\<forall>l. snd st = Some l \<longrightarrow> sized l \<and> lifecycle_status l = Active))"

section \<open>Shared facts about the two route handlers\<close>

lemmas validation_defs =
  validateWalletAddress_def validateDateFormat_def digits_between_def digit_char_def
  base58_char_def in_range_def Number_def digit_value_def

lemmas parse_defs =
  parseAndValidateDate_def element_def js_lt_def js_gt_def js_minus_def new_Date_def

lemma DaysBeforeMonth_numeral:
  "DaysBeforeMonth y (numeral k) =
     DaysBeforeMonth y (pred_numeral k) + DaysInMonth y (int (pred_numeral k))"
  by (simp add: numeral_eq_Suc)

lemmas date_defs =
  MakeDay_def DayFromYear_def DaysInMonth_def InLeapYear_def DaysBeforeMonth_numeral

lemmas GET_defs =
  GET_def GET_from_date_def GET_to_date_def GET_date_range_def truthy_def json_error_def
  ok_response_def returning_def catch_error_def

lemma pages_validateWalletAddress_eq: "pages_validateWalletAddress = validateWalletAddress"
  by (rule ext) (simp add: pages_validateWalletAddress_def validateWalletAddress_def)

lemma pages_validateDateFormat_eq: "pages_validateDateFormat = validateDateFormat"
  by (rule ext) (simp add: pages_validateDateFormat_def validateDateFormat_def)

lemma pages_parseAndValidateDate_eq: "pages_parseAndValidateDate = parseAndValidateDate"
  by (rule ext) (simp add: pages_parseAndValidateDate_def parseAndValidateDate_def)

lemma handler_from_date_Str:
  "handler_from_date (map_option Str from_date) = GET_from_date from_date"
  by (cases from_date)
     (simp_all add: handler_from_date_def GET_from_date_def truthy_q_def truthy_def
        pages_validateDateFormat_eq pages_parseAndValidateDate_eq)

lemma handler_to_date_Str:
  "handler_to_date (map_option Str to_date) = GET_to_date to_date"
  by (cases to_date)
     (simp_all add: handler_to_date_def GET_to_date_def truthy_q_def truthy_def
        pages_validateDateFormat_eq pages_parseAndValidateDate_eq)

lemma handler_date_range_eq: "handler_date_range fromDate toDate = GET_date_range fromDate toDate"
  unfolding handler_date_range_def GET_date_range_def
  by (simp only: pages_parseAndValidateDate_eq)

lemma handler_GET_eq:
  "handler analyzeTradeHistoryJson ''GET'' (Some (Str wallet))
       (map_option Str from_date) (map_option Str to_date)
     = GET analyzeTradeHistoryJson wallet from_date to_date"
  unfolding handler_def GET_def
  by (simp only: handler_from_date_Str handler_to_date_Str handler_date_range_eq
        pages_validateWalletAddress_eq) simp

lemma handler_other_method:
  "method \<noteq> ''GET'' \<Longrightarrow>
     handler analyzeTradeHistoryJson method wallet from_date to_date =
       (json_error ''Method not allowed'' 405, [])"
  by (simp add: handler_def)

lemma example_wallet_valid: "validateWalletAddress ''GFexHU2EkUcmcKbj3GyiuNQoa7TreCxLkAxMb2xeLHgS''"
  by (simp add: validation_defs)

lemma parse_components:
  assumes "map Number (split_dot s) = [Fin d, Fin m, Fin y]"
  shows "parseAndValidateDate s =
     (if d < 1 \<or> 31 < d then Inl ''Invalid day''
      else if m < 1 \<or> 12 < m then Inl ''Invalid month''
      else if y < 2020 \<or> 2030 < y then Inl ''Invalid year''
      else Inr (MakeDay y (m - 1) d))"
  using assms by (simp add: parse_defs Let_def)

lemma Number_digits: "digits_between lo hi s \<Longrightarrow> \<exists>v. Number s = Fin v"
  by (auto simp: digits_between_def Number_def)

lemma format_components:
  assumes "validateDateFormat s"
  shows "\<exists>d m y. map Number (split_dot s) = [Fin d, Fin m, Fin y]"
proof -
  from assms obtain a b c where s: "split_dot s = [a, b, c]"
    and a: "digits_between 1 2 a" and b: "digits_between 1 2 b" and c: "digits_between 4 4 c"
    by (auto simp: validateDateFormat_def split: list.splits)
  from Number_digits [OF a] Number_digits [OF b] Number_digits [OF c]
  show ?thesis using s by auto
qed

lemma parse_empty: "parseAndValidateDate [] = Inl ''Invalid day''"
  by (simp add: parse_defs Number_def)

lemma GET_from_date_status: "GET_from_date x = Inl r \<Longrightarrow> status r = 400"
  by (auto simp: GET_from_date_def json_error_def split: if_splits option.splits sum.splits)

lemma GET_to_date_status: "GET_to_date x = Inl r \<Longrightarrow> status r = 400"
  by (auto simp: GET_to_date_def json_error_def split: if_splits option.splits sum.splits)

lemma GET_early_return:
  "GET_from_date from_date = Inl r \<Longrightarrow> wallet \<noteq> [] \<Longrightarrow> validateWalletAddress wallet \<Longrightarrow>
     GET (a :: 'a analyzer) wallet from_date to_date = (r, [])"
  "(GET_from_date from_date :: 'a response + string option) = Inr v \<Longrightarrow>
     GET_to_date to_date = Inl r \<Longrightarrow> wallet \<noteq> [] \<Longrightarrow>
     validateWalletAddress wallet \<Longrightarrow> GET a wallet from_date to_date = (r, [])"
  by (simp_all add: GET_def)

lemma GET_invalid_wallet:
  "wallet = [] \<or> \<not> validateWalletAddress wallet \<Longrightarrow>
     status (fst (GET a wallet from_date to_date)) = 400 \<and> snd (GET a wallet from_date to_date) = []"
  by (auto simp: GET_def json_error_def)

lemma bad_from_date:
  assumes "s \<noteq> []"
    and "\<not> validateDateFormat s \<or>
         (\<exists>d m y. map Number (split_dot s) = [Fin d, Fin m, Fin y] \<and>
            (d < 1 \<or> 31 < d \<or> m < 1 \<or> 12 < m \<or> y < 2020 \<or> 2030 < y))"
  shows "\<exists>r. (GET_from_date (Some s) :: 'a response + string option) = Inl r"
  using assms
  by (auto simp: GET_from_date_def truthy_def parse_components split: sum.splits if_splits)

lemma bad_to_date:
  assumes "s \<noteq> []"
    and "\<not> validateDateFormat s \<or>
         (\<exists>d m y. map Number (split_dot s) = [Fin d, Fin m, Fin y] \<and>
            (d < 1 \<or> 31 < d \<or> m < 1 \<or> 12 < m \<or> y < 2020 \<or> 2030 < y))"
  shows "\<exists>r. (GET_to_date (Some s) :: 'a response + string option) = Inl r"
  using assms
  by (auto simp: GET_to_date_def truthy_def parse_components split: sum.splits if_splits)

lemma GET_date_range_ge:
  assumes "parseAndValidateDate f = Inr a" and "parseAndValidateDate t = Inr b" and "b \<le> a"
  shows "GET_date_range (Some f) (Some t) =
           Some (json_error ''from_date must be earlier than to_date'' 400)"
proof -
  from assms(1) have "f \<noteq> []" using parse_empty by auto
  moreover from assms(2) have "t \<noteq> []" using parse_empty by auto
  ultimately show ?thesis using assms by (simp add: GET_date_range_def truthy_def)
qed

lemma GET_from_date_cases:
  assumes "parseAndValidateDate f = Inr a"
  shows "(GET_from_date (Some f) :: 'a response + string option) =
     (if validateDateFormat f then Inr (Some f)
      else Inl (json_error ''Invalid from_date format. Use DD.MM.YYYY'' 400))"
proof -
  from assms have "f \<noteq> []" using parse_empty by auto
  then show ?thesis using assms by (simp add: GET_from_date_def truthy_def)
qed

lemma GET_to_date_cases:
  assumes "parseAndValidateDate t = Inr b"
  shows "(GET_to_date (Some t) :: 'a response + string option) =
     (if validateDateFormat t then Inr (Some t)
      else Inl (json_error ''Invalid to_date format. Use DD.MM.YYYY'' 400))"
proof -
  from assms have "t \<noteq> []" using parse_empty by auto
  then show ?thesis using assms by (simp add: GET_to_date_def truthy_def)
qed

lemma GET_range:
  assumes "parseAndValidateDate f = Inr a" and "parseAndValidateDate t = Inr b" and "b \<le> a"
  shows "status (fst (GET an wallet (Some f) (Some t))) = 400"
    and "snd (GET an wallet (Some f) (Some t)) = []"
    and "validateWalletAddress wallet \<Longrightarrow> validateDateFormat f \<Longrightarrow> validateDateFormat t \<Longrightarrow>
         body (fst (GET an wallet (Some f) (Some t))) =
           ErrorBody ''from_date must be earlier than to_date''"
  by (auto simp add: GET_def GET_from_date_cases [OF assms(1)] GET_to_date_cases [OF assms(2)]
        GET_date_range_ge [OF assms] json_error_def validateWalletAddress_def)

lemma MakeDay_index:
  "0 \<le> k \<Longrightarrow> k < 12 \<Longrightarrow> MakeDay y k d = DayFromYear y + DaysBeforeMonth y (nat k) + d - 1"
  by (simp add: MakeDay_def)

lemma DaysBeforeMonth_next:
  assumes "1 \<le> m"
  shows "DaysBeforeMonth y (nat m) = DaysBeforeMonth y (nat (m - 1)) + DaysInMonth y (m - 1)"
proof -
  from assms have "nat m = Suc (nat (m - 1))" by simp
  then show ?thesis using assms by simp
qed

lemma DaysInMonth_bounds: "28 \<le> DaysInMonth y k \<and> DaysInMonth y k \<le> 31"
  by (simp add: DaysInMonth_def)

lemma DaysInMonth_december: "DaysInMonth y 11 = 31"
  by (simp add: DaysInMonth_def)

lemma rollover:
  assumes "1 \<le> m" and "m \<le> 12" and "d \<le> 31" and "DaysInMonth y (m - 1) < d"
  shows "m < 12" and "1 \<le> d - DaysInMonth y (m - 1)"
    and "d - DaysInMonth y (m - 1) \<le> DaysInMonth y m"
    and "MakeDay y (m - 1) d = MakeDay y m (d - DaysInMonth y (m - 1))"
proof -
  show m: "m < 12"
  proof (rule ccontr)
    assume "\<not> m < 12"
    with assms(2) have "m = 12" by simp
    with assms(3,4) DaysInMonth_december [of y] show False by simp
  qed
  show "1 \<le> d - DaysInMonth y (m - 1)" using assms(4) by simp
  show "d - DaysInMonth y (m - 1) \<le> DaysInMonth y m"
    using DaysInMonth_bounds [of y "m - 1"] DaysInMonth_bounds [of y m] assms(3) by linarith
  show "MakeDay y (m - 1) d = MakeDay y m (d - DaysInMonth y (m - 1))"
    using assms(1) m by (simp add: MakeDay_index DaysBeforeMonth_next)
qed

lemma DaysBeforeMonth_mono: "i \<le> j \<Longrightarrow> DaysBeforeMonth y i \<le> DaysBeforeMonth y j"
proof (induction j)
  case 0
  then show ?case by simp
next
  case (Suc j)
  show ?case
  proof (cases "i = Suc j")
    case True
    then show ?thesis by simp
  next
    case False
    with Suc have "DaysBeforeMonth y i \<le> DaysBeforeMonth y j" by simp
    with DaysInMonth_bounds [of y "int j"] show ?thesis by simp
  qed
qed

lemma DaysBeforeMonth_nonneg: "0 \<le> DaysBeforeMonth y i"
  using DaysBeforeMonth_mono [of 0 i y] by simp

lemma DaysBeforeMonth_year: "DaysBeforeMonth y 12 = (if InLeapYear y then 366 else 365)"
  by (simp add: DaysBeforeMonth_numeral DaysInMonth_def)

lemma DayFromYear_next:
  assumes "2020 \<le> y" and "y \<le> 2030"
  shows "DayFromYear (y + 1) = DayFromYear y + DaysBeforeMonth y 12"
proof -
  from assms have "y = 2020 \<or> y = 2021 \<or> y = 2022 \<or> y = 2023 \<or> y = 2024 \<or> y = 2025 \<or>
      y = 2026 \<or> y = 2027 \<or> y = 2028 \<or> y = 2029 \<or> y = 2030"
    by arith
  then show ?thesis
    unfolding DaysBeforeMonth_year
    by (elim disjE) (simp_all add: DayFromYear_def InLeapYear_def)
qed

lemma within_month:
  assumes "0 \<le> k" and "k < 12" and "1 \<le> e" and "e \<le> DaysInMonth y k"
  shows "MakeDay y k 1 \<le> MakeDay y k e" and "MakeDay y k e \<le> MakeDay y k (DaysInMonth y k)"
    and "DayFromYear y \<le> MakeDay y k e"
    and "MakeDay y k e < DayFromYear y + DaysBeforeMonth y 12"
proof -
  show "MakeDay y k 1 \<le> MakeDay y k e" using assms by (simp add: MakeDay_index)
  show "MakeDay y k e \<le> MakeDay y k (DaysInMonth y k)" using assms by (simp add: MakeDay_index)
  show "DayFromYear y \<le> MakeDay y k e"
    using assms DaysBeforeMonth_nonneg [of y "nat k"] by (simp add: MakeDay_index)
  have "Suc (nat k) \<le> 12" using assms by simp
  from DaysBeforeMonth_mono [OF this, of y] assms
  show "MakeDay y k e < DayFromYear y + DaysBeforeMonth y 12"
    by (simp add: MakeDay_index)
qed

lemma handler_from_date_status: "handler_from_date x = Inl r \<Longrightarrow> status r = 400"
  by (auto simp: handler_from_date_def json_error_def
      split: if_splits option.splits sum.splits qval.splits)

lemma handler_to_date_status: "handler_to_date x = Inl r \<Longrightarrow> status r = 400"
  by (auto simp: handler_to_date_def json_error_def
      split: if_splits option.splits sum.splits qval.splits)

lemma req_query_single:
  "length values \<le> 1 \<Longrightarrow> req_query values = map_option Str (searchParams_get values)"
  by (cases "values") (auto simp: req_query_def searchParams_get_def split: list.splits)

lemma req_query_repeated: "2 \<le> length values \<Longrightarrow> req_query values = Some (Arr values)"
  by (cases "values") (auto simp: req_query_def split: list.splits)

lemma handler_from_date_Arr:
  "handler_from_date (Some (Arr values)) =
     Inl (json_error ''Invalid from_date format. Use DD.MM.YYYY'' 400)"
  by (simp add: handler_from_date_def truthy_q_def)

lemma handler_to_date_Arr:
  "handler_to_date (Some (Arr values)) =
     Inl (json_error ''Invalid to_date format. Use DD.MM.YYYY'' 400)"
  by (simp add: handler_to_date_def truthy_q_def)

lemma handler_rejects_repeated:
  assumes "2 \<le> length fs \<or> 2 \<le> length ts"
  shows "status (fst (handler (a :: 'a analyzer) ''GET'' (Some (Str wallet)) (req_query fs) (req_query ts))) = 400 \<and>
         snd (handler a ''GET'' (Some (Str wallet)) (req_query fs) (req_query ts)) = []"
proof (cases "wallet = [] \<or> \<not> pages_validateWalletAddress wallet")
  case True
  then show ?thesis by (auto simp: handler_def json_error_def)
next
  case False
  then have w: "wallet \<noteq> []" "pages_validateWalletAddress wallet" by auto
  show ?thesis
  proof (cases "handler_from_date (req_query fs) :: 'a response + string option")
    case (Inl r)
    with w handler_from_date_status [OF Inl] show ?thesis by (simp add: handler_def)
  next
    case (Inr v)
    have "\<not> 2 \<le> length fs"
    proof
      assume "2 \<le> length fs"
      with Inr show False by (simp add: req_query_repeated handler_from_date_Arr)
    qed
    with assms have "2 \<le> length ts" by simp
    then have "(handler_to_date (req_query ts) :: 'a response + string option) =
        Inl (json_error ''Invalid to_date format. Use DD.MM.YYYY'' 400)"
      by (simp add: req_query_repeated handler_to_date_Arr)
    with w Inr show ?thesis by (simp add: handler_def json_error_def)
  qed
qed

section \<open>Properties of the route handlers\<close>

text \<open>
  C1. A wallet path parameter that does not match \<^verbatim>\<open>^[1-9A-HJ-NP-Za-km-z]{32,44}$\<close> makes the
  GET handler answer with status 400, and the handler makes no call to
  \<^verbatim>\<open>analyzeTradeHistoryJson\<close>, whatever the date parameters are.
\<close>

theorem GET_rejects_invalid_wallet:
  assumes "\<not> validateWalletAddress wallet"
  shows "status (fst (GET analyzeTradeHistoryJson wallet from_date to_date)) = 400 \<and>
         snd (GET analyzeTradeHistoryJson wallet from_date to_date) = []"
  using assms by (simp add: GET_def json_error_def)

theorem GET_rejects_invalid_wallet_witness:
  "\<not> validateWalletAddress ''0OIl'' \<and>
   status (fst (GET (returning ()) ''0OIl'' None None)) = 400 \<and>
   snd (GET (returning ()) ''0OIl'' None None) = []"
proof -
  have h: "\<not> validateWalletAddress ''0OIl''"
    by (simp add: validateWalletAddress_def)
  show ?thesis
    using h GET_rejects_invalid_wallet [OF h, of "returning ()" None None] by simp
qed

text \<open>
  C2, as stated, fails: \<^verbatim>\<open>31.02.2025\<close> names a day that February 2025 does not have, yet the
  handler accepts it and calls \<^verbatim>\<open>analyzeTradeHistoryJson\<close> with it. The format test and the
  bounds 1..31, 1..12 and 2020..2030 are all that \<^verbatim>\<open>parseAndValidateDate\<close> checks, and
  \<^verbatim>\<open>new Date\<close> never yields an invalid Date on components inside those bounds. An empty
  parameter (\<^verbatim>\<open>?from_date=\<close>) is no date either; it is falsy, so the handler treats it as
  absent and calls the function without a from-date.
\<close>

theorem GET_calls_despite_invalid_date:
  "DaysInMonth 2025 1 = 28 \<and>
   status (fst (GET (returning ()) ''GFexHU2EkUcmcKbj3GyiuNQoa7TreCxLkAxMb2xeLHgS'' (Some ''31.02.2025'') None)) = 200 \<and>
   snd (GET (returning ()) ''GFexHU2EkUcmcKbj3GyiuNQoa7TreCxLkAxMb2xeLHgS'' (Some ''31.02.2025'') None) =
     [(Some ''31.02.2025'', ''GFexHU2EkUcmcKbj3GyiuNQoa7TreCxLkAxMb2xeLHgS'', None)] \<and>
   status (fst (GET (returning ()) ''GFexHU2EkUcmcKbj3GyiuNQoa7TreCxLkAxMb2xeLHgS'' (Some []) None)) = 200 \<and>
   snd (GET (returning ()) ''GFexHU2EkUcmcKbj3GyiuNQoa7TreCxLkAxMb2xeLHgS'' (Some []) None) = [(None, ''GFexHU2EkUcmcKbj3GyiuNQoa7TreCxLkAxMb2xeLHgS'', None)]"
  by (simp add: GET_defs validation_defs parse_defs date_defs)

text \<open>
  C2, amended. A non-empty \<^verbatim>\<open>from_date\<close> or \<^verbatim>\<open>to_date\<close> that does not match the format
  \<^verbatim>\<open>D.M.YYYY\<close>, or whose day is outside 1..31, month outside 1..12 or year outside 2020..2030,
  makes the GET handler answer with status 400 without calling \<^verbatim>\<open>analyzeTradeHistoryJson\<close>.
  So the function is called only when every non-empty date parameter passes these checks.
\<close>

theorem GET_rejects_malformed_date:
  assumes "from_date = Some s \<or> to_date = Some s" and "s \<noteq> []"
    and "\<not> validateDateFormat s \<or>
         (\<exists>d m y. map Number (split_dot s) = [Fin d, Fin m, Fin y] \<and>
            (d < 1 \<or> 31 < d \<or> m < 1 \<or> 12 < m \<or> y < 2020 \<or> 2030 < y))"
  shows "status (fst (GET (analyzeTradeHistoryJson :: 'a analyzer) wallet from_date to_date)) = 400 \<and>
         snd (GET analyzeTradeHistoryJson wallet from_date to_date) = []"
proof (cases "wallet = [] \<or> \<not> validateWalletAddress wallet")
  case True
  then show ?thesis by (rule GET_invalid_wallet)
next
  case False
  then have w: "wallet \<noteq> []" "validateWalletAddress wallet" by auto
  show ?thesis
  proof (cases "GET_from_date from_date :: 'a response + string option")
    case (Inl r)
    with GET_early_return(1) [OF Inl w] GET_from_date_status [OF Inl] show ?thesis by simp
  next
    case (Inr v)
    with bad_from_date [OF assms(2,3), where ?'a = 'a] assms(1) have t: "to_date = Some s"
      by auto
    from bad_to_date [OF assms(2,3), where ?'a = 'a] t
    obtain r :: "'a response" where r: "GET_to_date to_date = Inl r" by auto
    from GET_early_return(2) [OF Inr r w] GET_to_date_status [OF r] show ?thesis by simp
  qed
qed

theorem GET_rejects_malformed_date_witness:
  "validateDateFormat ''32.01.2025'' \<and>
   map Number (split_dot ''32.01.2025'') = [Fin 32, Fin 1, Fin 2025] \<and>
   status (fst (GET (returning ()) ''GFexHU2EkUcmcKbj3GyiuNQoa7TreCxLkAxMb2xeLHgS'' None (Some ''32.01.2025''))) = 400 \<and>
   snd (GET (returning ()) ''GFexHU2EkUcmcKbj3GyiuNQoa7TreCxLkAxMb2xeLHgS'' None (Some ''32.01.2025'')) = []"
proof -
  have f: "validateDateFormat ''32.01.2025''"
    by (simp add: validation_defs)
  have c: "map Number (split_dot ''32.01.2025'') = [Fin 32, Fin 1, Fin 2025]"
    by (simp add: validation_defs)
  have h1: "(None :: string option) = Some ''32.01.2025'' \<or> Some ''32.01.2025'' = Some ''32.01.2025''"
    by simp
  have h2: "''32.01.2025'' \<noteq> []" by simp
  have h3: "\<not> validateDateFormat ''32.01.2025'' \<or>
         (\<exists>d m y. map Number (split_dot ''32.01.2025'') = [Fin d, Fin m, Fin y] \<and>
            (d < 1 \<or> 31 < d \<or> m < 1 \<or> 12 < m \<or> y < 2020 \<or> 2030 < y))"
    using c by simp
  from GET_rejects_malformed_date [OF h1 h2 h3, of "returning ()" "''GFexHU2EkUcmcKbj3GyiuNQoa7TreCxLkAxMb2xeLHgS''"] f c
  show ?thesis by simp
qed

text \<open>
  C8. When both dates are supplied and the parsed from-date is not earlier than the parsed
  to-date (the same day included), both handlers answer with status 400 and do not call
  \<^verbatim>\<open>analyzeTradeHistoryJson\<close>; with a valid wallet and well-formed dates the error is
  \<^verbatim>\<open>from_date must be earlier than to_date\<close>. A one-day range cannot be requested.
\<close>

theorem handlers_reject_from_not_before_to:
  assumes "parseAndValidateDate f = Inr a" and "parseAndValidateDate t = Inr b" and "a \<ge> b"
  shows "status (fst (GET an wallet (Some f) (Some t))) = 400 \<and>
         snd (GET an wallet (Some f) (Some t)) = [] \<and>
         status (fst (handler an ''GET'' (Some (Str wallet)) (Some (Str f)) (Some (Str t)))) = 400 \<and>
         snd (handler an ''GET'' (Some (Str wallet)) (Some (Str f)) (Some (Str t))) = [] \<and>
         (validateWalletAddress wallet \<and> validateDateFormat f \<and> validateDateFormat t \<longrightarrow>
           body (fst (GET an wallet (Some f) (Some t))) =
             ErrorBody ''from_date must be earlier than to_date'')"
proof -
  note r = GET_range [OF assms, where an = an and wallet = wallet]
  have h: "handler an ''GET'' (Some (Str wallet)) (Some (Str f)) (Some (Str t))
             = GET an wallet (Some f) (Some t)"
    using handler_GET_eq [of an wallet "Some f" "Some t"] by simp
  show ?thesis unfolding h using r by blast
qed

theorem handlers_reject_from_not_before_to_witness:
  "parseAndValidateDate ''15.06.2025'' = Inr 20254 \<and>
   validateDateFormat ''15.06.2025'' \<and>
   fst (GET (returning ()) ''GFexHU2EkUcmcKbj3GyiuNQoa7TreCxLkAxMb2xeLHgS'' (Some ''15.06.2025'') (Some ''15.06.2025'')) =
     json_error ''from_date must be earlier than to_date'' 400 \<and>
   snd (GET (returning ()) ''GFexHU2EkUcmcKbj3GyiuNQoa7TreCxLkAxMb2xeLHgS'' (Some ''15.06.2025'') (Some ''15.06.2025'')) = [] \<and>
   status (fst (handler (returning ()) ''GET'' (Some (Str ''GFexHU2EkUcmcKbj3GyiuNQoa7TreCxLkAxMb2xeLHgS''))
     (Some (Str ''15.06.2025'')) (Some (Str ''15.06.2025'')))) = 400 \<and>
   snd (handler (returning ()) ''GET'' (Some (Str ''GFexHU2EkUcmcKbj3GyiuNQoa7TreCxLkAxMb2xeLHgS''))
     (Some (Str ''15.06.2025'')) (Some (Str ''15.06.2025''))) = []"
proof -
  have p: "parseAndValidateDate ''15.06.2025'' = Inr 20254"
    by (simp add: parse_defs validation_defs date_defs)
  have f: "validateDateFormat ''15.06.2025''"
    by (simp add: validation_defs)
  have le: "(20254 :: int) \<ge> 20254" by simp
  have g: "fst (GET (returning ()) ''GFexHU2EkUcmcKbj3GyiuNQoa7TreCxLkAxMb2xeLHgS'' (Some ''15.06.2025'') (Some ''15.06.2025'')) =
     json_error ''from_date must be earlier than to_date'' 400"
    by (simp add: GET_def GET_from_date_cases [OF p] GET_to_date_cases [OF p]
          GET_date_range_ge [OF p p le] f example_wallet_valid)
  from handlers_reject_from_not_before_to [OF p p le, of "returning ()" "''GFexHU2EkUcmcKbj3GyiuNQoa7TreCxLkAxMb2xeLHgS''"] p f g
  show ?thesis by simp
qed

text \<open>
  C9. On a string of the form \<^verbatim>\<open>D.M.YYYY\<close> whose day is in 1..31, month in 1..12 and year in
  2020..2030, \<^verbatim>\<open>parseAndValidateDate\<close> (either copy) throws nothing and returns the Date that
  \<^verbatim>\<open>new Date(year, month - 1, day)\<close> builds: the day \<open>day - 1\<close> days after the first of the
  named month, a day of the named year. A day that the named month has gives a Date from the
  first to the last day of that month. A day that exceeds the month's length gives a Date
  strictly after the last day of the named month and no later than the last day of the
  following month, whose first day is the day after the named month ends: it is the day
  \<open>day - length\<close> of the following month, and the named month is never December.
\<close>

theorem parseAndValidateDate_total_with_rollover:
  assumes "validateDateFormat s" and "map Number (split_dot s) = [Fin d, Fin m, Fin y]"
    and "1 \<le> d" and "d \<le> 31" and "1 \<le> m" and "m \<le> 12" and "2020 \<le> y" and "y \<le> 2030"
  shows "parseAndValidateDate s = Inr (MakeDay y (m - 1) d) \<and>
         pages_parseAndValidateDate s = Inr (MakeDay y (m - 1) d) \<and>
         MakeDay y (m - 1) d = MakeDay y (m - 1) 1 + (d - 1) \<and>
         DayFromYear y \<le> MakeDay y (m - 1) d \<and> MakeDay y (m - 1) d < DayFromYear (y + 1) \<and>
         (d \<le> DaysInMonth y (m - 1) \<longrightarrow>
            MakeDay y (m - 1) 1 \<le> MakeDay y (m - 1) d \<and>
            MakeDay y (m - 1) d \<le> MakeDay y (m - 1) (DaysInMonth y (m - 1))) \<and>
         (DaysInMonth y (m - 1) < d \<longrightarrow>
            m < 12 \<and> 1 \<le> d - DaysInMonth y (m - 1) \<and>
            d - DaysInMonth y (m - 1) \<le> DaysInMonth y m \<and>
            MakeDay y (m - 1) d = MakeDay y m (d - DaysInMonth y (m - 1)) \<and>
            MakeDay y (m - 1) (DaysInMonth y (m - 1)) < MakeDay y (m - 1) d \<and>
            MakeDay y m 1 = MakeDay y (m - 1) (DaysInMonth y (m - 1)) + 1 \<and>
            MakeDay y m 1 \<le> MakeDay y (m - 1) d \<and>
            MakeDay y (m - 1) d \<le> MakeDay y m (DaysInMonth y m))"
proof -
  have k: "0 \<le> m - 1" "m - 1 < 12" using assms(5,6) by simp_all
  have p: "parseAndValidateDate s = Inr (MakeDay y (m - 1) d)"
    using assms by (simp add: parse_components)
  have off: "MakeDay y (m - 1) d = MakeDay y (m - 1) 1 + (d - 1)"
    using k by (simp add: MakeDay_index)
  have inside: "MakeDay y (m - 1) 1 \<le> MakeDay y (m - 1) d \<and>
      MakeDay y (m - 1) d \<le> MakeDay y (m - 1) (DaysInMonth y (m - 1))"
    if "d \<le> DaysInMonth y (m - 1)"
    using within_month(1,2) [OF k assms(3) that] by simp
  have over: "m < 12 \<and> 1 \<le> d - DaysInMonth y (m - 1) \<and>
      d - DaysInMonth y (m - 1) \<le> DaysInMonth y m \<and>
      MakeDay y (m - 1) d = MakeDay y m (d - DaysInMonth y (m - 1)) \<and>
      MakeDay y (m - 1) (DaysInMonth y (m - 1)) < MakeDay y (m - 1) d \<and>
      MakeDay y m 1 = MakeDay y (m - 1) (DaysInMonth y (m - 1)) + 1 \<and>
      MakeDay y m 1 \<le> MakeDay y (m - 1) d \<and>
      MakeDay y (m - 1) d \<le> MakeDay y m (DaysInMonth y m)"
    if r: "DaysInMonth y (m - 1) < d"
  proof -
    note ro = rollover [OF assms(5,6,4) r]
    have m0: "0 \<le> m" using assms(5) by simp
    have first: "MakeDay y m 1 = MakeDay y (m - 1) (DaysInMonth y (m - 1)) + 1"
      using assms(5) ro(1) by (simp add: MakeDay_index DaysBeforeMonth_next)
    have past: "MakeDay y (m - 1) (DaysInMonth y (m - 1)) < MakeDay y (m - 1) d"
      using k r by (simp add: MakeDay_index)
    from within_month(1,2) [OF m0 ro(1) ro(2) ro(3)] ro first past
    show ?thesis by simp
  qed
  have year: "DayFromYear y \<le> MakeDay y (m - 1) d \<and> MakeDay y (m - 1) d < DayFromYear (y + 1)"
  proof (cases "d \<le> DaysInMonth y (m - 1)")
    case True
    from within_month(3,4) [OF k assms(3) True] DayFromYear_next [OF assms(7,8)]
    show ?thesis by simp
  next
    case False
    then have r: "DaysInMonth y (m - 1) < d" by simp
    note ro = rollover [OF assms(5,6,4) r]
    have m0: "0 \<le> m" using assms(5) by simp
    from within_month(3,4) [OF m0 ro(1) ro(2) ro(3)] ro(4) DayFromYear_next [OF assms(7,8)]
    show ?thesis by simp
  qed
  have pp: "pages_parseAndValidateDate s = Inr (MakeDay y (m - 1) d)"
    using p by (simp only: pages_parseAndValidateDate_eq)
  from p pp off inside over year show ?thesis by blast
qed

theorem parseAndValidateDate_total_with_rollover_witness:
  "validateDateFormat ''31.02.2025'' \<and>
   map Number (split_dot ''31.02.2025'') = [Fin 31, Fin 2, Fin 2025] \<and>
   DaysInMonth 2025 1 = 28 \<and>
   parseAndValidateDate ''31.02.2025'' = Inr 20150 \<and>
   pages_parseAndValidateDate ''31.02.2025'' = Inr 20150 \<and>
   parseAndValidateDate ''03.03.2025'' = Inr 20150 \<and>
   MakeDay 2025 1 31 = 20150 \<and>
   MakeDay 2025 1 28 = 20147 \<and>
   MakeDay 2025 2 1 = 20148 \<and>
   MakeDay 2025 2 31 = 20178 \<and>
   DayFromYear 2025 = 20089 \<and>
   MakeDay 1970 0 1 = 0"
proof -
  have f: "validateDateFormat ''31.02.2025''"
    by (simp add: validation_defs)
  have c: "map Number (split_dot ''31.02.2025'') = [Fin 31, Fin 2, Fin 2025]"
    by (simp add: validation_defs)
  have dim: "DaysInMonth 2025 1 = 28" "DaysInMonth 2025 2 = 31"
    by (simp_all add: DaysInMonth_def InLeapYear_def)
  have v: "MakeDay 2025 1 31 = 20150" "MakeDay 2025 1 28 = 20147" "MakeDay 2025 2 1 = 20148"
    "MakeDay 2025 2 31 = 20178" "DayFromYear 2025 = 20089" "MakeDay 1970 0 1 = 0"
    by (simp_all add: date_defs)
  have q: "parseAndValidateDate ''03.03.2025'' = Inr 20150"
    by (simp add: parse_defs validation_defs date_defs)
  from parseAndValidateDate_total_with_rollover [OF f c] dim v f c q show ?thesis by simp
qed

text \<open>
  C10, as stated, fails: the claim names the method test as the only difference, but a date
  parameter given twice separates the handlers. \<^verbatim>\<open>searchParams.get\<close> hands the App Router the
  first value, which it validates and passes on; \<^verbatim>\<open>req.query\<close> hands the Pages Router the
  array of both values, which fails its \<^verbatim>\<open>typeof from_date !== 'string'\<close> test.
\<close>

theorem routers_differ_on_repeated_parameter:
  "searchParams_get [''01.06.2025'', ''02.06.2025''] = Some ''01.06.2025'' \<and>
   req_query [''01.06.2025'', ''02.06.2025''] = Some (Arr [''01.06.2025'', ''02.06.2025'']) \<and>
   GET (returning ()) ''GFexHU2EkUcmcKbj3GyiuNQoa7TreCxLkAxMb2xeLHgS''
       (searchParams_get [''01.06.2025'', ''02.06.2025'']) (searchParams_get [])
     = (ok_response (), [(Some ''01.06.2025'', ''GFexHU2EkUcmcKbj3GyiuNQoa7TreCxLkAxMb2xeLHgS'', None)]) \<and>
   handler (returning ()) ''GET'' (Some (Str ''GFexHU2EkUcmcKbj3GyiuNQoa7TreCxLkAxMb2xeLHgS''))
       (req_query [''01.06.2025'', ''02.06.2025'']) (req_query [])
     = (json_error ''Invalid from_date format. Use DD.MM.YYYY'' 400, [])"
  by (simp add: GET_defs validation_defs parse_defs date_defs searchParams_get_def req_query_def
        handler_def handler_from_date_def truthy_q_def pages_validateWalletAddress_def)

text \<open>
  C10, amended. The two route files validate identically whenever each date parameter is
  given at most once. Their three validation functions are equal as functions, their
  date-range blocks are equal, and on a GET request whose date parameters are single strings
  or absent the Pages Router handler returns the response, and makes the calls, of the App
  Router handler. The Pages Router alone rejects a request with another method (405) and a
  request that repeats a date parameter (400, no call).
\<close>

theorem routers_validate_identically:
  "pages_validateWalletAddress = validateWalletAddress \<and>
   pages_validateDateFormat = validateDateFormat \<and>
   pages_parseAndValidateDate = parseAndValidateDate \<and>
   handler_date_range fromDate toDate = (GET_date_range fromDate toDate :: 'a response option) \<and>
   handler (analyzeTradeHistoryJson :: 'a analyzer) ''GET'' (Some (Str wallet))
       (map_option Str from_date) (map_option Str to_date)
     = GET analyzeTradeHistoryJson wallet from_date to_date \<and>
   (length fs \<le> 1 \<and> length ts \<le> 1 \<longrightarrow>
      handler analyzeTradeHistoryJson ''GET'' (Some (Str wallet)) (req_query fs) (req_query ts)
        = GET analyzeTradeHistoryJson wallet (searchParams_get fs) (searchParams_get ts)) \<and>
   (2 \<le> length fs \<or> 2 \<le> length ts \<longrightarrow>
      status (fst (handler analyzeTradeHistoryJson ''GET'' (Some (Str wallet))
                     (req_query fs) (req_query ts))) = 400 \<and>
      snd (handler analyzeTradeHistoryJson ''GET'' (Some (Str wallet))
             (req_query fs) (req_query ts)) = []) \<and>
   (method \<noteq> ''GET'' \<longrightarrow>
      handler analyzeTradeHistoryJson method w f t = (json_error ''Method not allowed'' 405, []))"
proof -
  have single: "handler analyzeTradeHistoryJson ''GET'' (Some (Str wallet)) (req_query fs) (req_query ts)
        = GET analyzeTradeHistoryJson wallet (searchParams_get fs) (searchParams_get ts)"
    if "length fs \<le> 1 \<and> length ts \<le> 1"
    using that handler_GET_eq [of analyzeTradeHistoryJson wallet "searchParams_get fs" "searchParams_get ts"]
    by (simp add: req_query_single)
  from single pages_validateWalletAddress_eq pages_validateDateFormat_eq
    pages_parseAndValidateDate_eq handler_date_range_eq [of fromDate toDate]
    handler_GET_eq [of analyzeTradeHistoryJson wallet from_date to_date]
    handler_rejects_repeated [of fs ts analyzeTradeHistoryJson wallet]
    handler_other_method [of "method" analyzeTradeHistoryJson w f t]
  show ?thesis by blast
qed

theorem routers_validate_identically_witness:
  "length [''01.06.2025''] \<le> 1 \<and> length [''27.06.2025''] \<le> 1 \<and>
   handler (returning ()) ''GET'' (Some (Str ''GFexHU2EkUcmcKbj3GyiuNQoa7TreCxLkAxMb2xeLHgS''))
       (req_query [''01.06.2025'']) (req_query [''27.06.2025''])
     = GET (returning ()) ''GFexHU2EkUcmcKbj3GyiuNQoa7TreCxLkAxMb2xeLHgS''
         (searchParams_get [''01.06.2025'']) (searchParams_get [''27.06.2025'']) \<and>
   GET (returning ()) ''GFexHU2EkUcmcKbj3GyiuNQoa7TreCxLkAxMb2xeLHgS''
       (searchParams_get [''01.06.2025'']) (searchParams_get [''27.06.2025''])
     = (ok_response (), [(Some ''01.06.2025'', ''GFexHU2EkUcmcKbj3GyiuNQoa7TreCxLkAxMb2xeLHgS'', Some ''27.06.2025'')]) \<and>
   ''POST'' \<noteq> ''GET'' \<and>
   handler (returning ()) ''POST'' (Some (Str ''GFexHU2EkUcmcKbj3GyiuNQoa7TreCxLkAxMb2xeLHgS'')) None None
     = (json_error ''Method not allowed'' 405, [])"
proof -
  have g: "GET (returning ()) ''GFexHU2EkUcmcKbj3GyiuNQoa7TreCxLkAxMb2xeLHgS''
       (searchParams_get [''01.06.2025'']) (searchParams_get [''27.06.2025''])
     = (ok_response (), [(Some ''01.06.2025'', ''GFexHU2EkUcmcKbj3GyiuNQoa7TreCxLkAxMb2xeLHgS'', Some ''27.06.2025'')])"
    by (simp add: GET_defs validation_defs parse_defs date_defs searchParams_get_def)
  from routers_validate_identically [of _ _ "returning ()" "''GFexHU2EkUcmcKbj3GyiuNQoa7TreCxLkAxMb2xeLHgS''"
      None None "[''01.06.2025'']" "[''27.06.2025'']" "''POST''" "Some (Str ''GFexHU2EkUcmcKbj3GyiuNQoa7TreCxLkAxMb2xeLHgS'')" None None] g
  show ?thesis by simp
qed

section \<open>Properties of the pipeline as specified\<close>

subsection \<open>RateLimitedFetcher\<close>

declare attempt.simps [simp del]
declare paginate.simps [simp del]

lemma attempt_reply:
  "provider q n = Reply r \<Longrightarrow>
     attempt provider pol q n w = \<lparr>outcome = Reply r, attempts = n, waited = w\<rparr>"
  by (subst attempt.simps) simp

lemma attempt_retry:
  "provider q n = Failure f \<Longrightarrow> retriable f \<Longrightarrow> n < max_attempts pol \<Longrightarrow>
     attempt provider pol q n w =
       attempt provider pol q (Suc n) (w + base_delay pol * backoff_factor pol ^ (n - 1))"
  by (subst attempt.simps) simp

lemma attempt_give_up:
  "provider q n = Failure f \<Longrightarrow> \<not> (retriable f \<and> n < max_attempts pol) \<Longrightarrow>
     attempt provider pol q n w = \<lparr>outcome = Failure f, attempts = n, waited = w\<rparr>"
  by (subst attempt.simps) auto

lemma attempts_range:
  "n \<le> attempts (attempt provider pol q n w) \<and>
   attempts (attempt provider pol q n w) \<le> max n (max_attempts pol)"
proof (induction provider pol q n w rule: attempt.induct)
  case (1 provider policy request n delay)
  show ?case
  proof (cases "provider request n")
    case (Reply r)
    then show ?thesis by (simp add: attempt_reply)
  next
    case (Failure f)
    show ?thesis
    proof (cases "retriable f \<and> n < max_attempts policy")
      case True
      with 1 [OF Failure True] Failure show ?thesis
        by (simp add: attempt_retry)
    next
      case False
      with Failure show ?thesis by (simp add: attempt_give_up)
    qed
  qed
qed

lemma waited_backoff:
  "waited (attempt provider pol q n w) =
     w + (\<Sum>j = n..<attempts (attempt provider pol q n w).
            base_delay pol * backoff_factor pol ^ (j - 1))"
proof (induction provider pol q n w rule: attempt.induct)
  case (1 provider policy request n delay)
  show ?case
  proof (cases "provider request n")
    case (Reply r)
    then show ?thesis by (simp add: attempt_reply)
  next
    case (Failure f)
    show ?thesis
    proof (cases "retriable f \<and> n < max_attempts policy")
      case True
      have le: "Suc n \<le> attempts (attempt provider policy request (Suc n)
                 (delay + base_delay policy * backoff_factor policy ^ (n - 1)))"
        by (rule conjunct1 [OF attempts_range])
      from 1 [OF Failure True] Failure True le show ?thesis
        by (simp add: attempt_retry sum.atLeast_Suc_lessThan)
    next
      case False
      with Failure show ?thesis by (simp add: attempt_give_up)
    qed
  qed
qed

lemma exhausted:
  assumes "\<forall>k. n \<le> k \<and> k \<le> max_attempts pol \<longrightarrow> (\<exists>f. provider q k = Failure f \<and> retriable f)"
    and "n \<le> max_attempts pol"
  shows "(\<exists>f. outcome (attempt provider pol q n w) = Failure f \<and> retriable f) \<and>
         outcome (attempt provider pol q n w) = provider q (max_attempts pol) \<and>
         attempts (attempt provider pol q n w) = max_attempts pol"
  using assms
proof (induction "max_attempts pol - n" arbitrary: n w)
  case 0
  then have n: "n = max_attempts pol" by simp
  from 0(2) n obtain f where f: "provider q n = Failure f" "retriable f" by auto
  with n show ?case by (simp add: attempt_give_up)
next
  case (Suc d)
  then have lt: "n < max_attempts pol" by simp
  from Suc(3) lt obtain f where f: "provider q n = Failure f" "retriable f" by auto
  have "d = max_attempts pol - Suc n" using Suc(2) by simp
  moreover have "\<forall>k. Suc n \<le> k \<and> k \<le> max_attempts pol \<longrightarrow> (\<exists>f. provider q k = Failure f \<and> retriable f)"
    using Suc(3) by auto
  moreover have "Suc n \<le> max_attempts pol" using lt by simp
  ultimately show ?case
    using Suc(1) [of "Suc n"] f lt by (simp add: attempt_retry)
qed

lemma scenario_D:
  assumes "provider q 1 = Failure RateLimited" and "provider q 2 = Failure RateLimited"
    and "provider q 3 = Reply d"
  shows "attempt provider (default_policy base factor) q 1 0 =
           \<lparr>outcome = Reply d, attempts = 3, waited = base + base * factor\<rparr>"
proof -
  let ?pol = "default_policy base factor"
  have r: "retriable RateLimited" by (simp add: retriable_def)
  have m: "max_attempts ?pol = 3" "base_delay ?pol = base" "backoff_factor ?pol = factor"
    by (simp_all add: default_policy_def)
  have a1: "provider q (Suc 0) = Failure RateLimited" using assms(1) by simp
  have a2: "provider q (Suc (Suc 0)) = Failure RateLimited"
    using assms(2) by (simp add: numeral_2_eq_2)
  have a3: "provider q (Suc (Suc (Suc 0))) = Reply d"
    using assms(3) by (simp add: numeral_3_eq_3)
  have "attempt provider ?pol q (Suc 0) 0 = attempt provider ?pol q (Suc (Suc 0)) base"
    using attempt_retry [where provider = provider and q = q and n = "Suc 0"
        and f = RateLimited and pol = ?pol and w = 0] a1 r m
    by simp
  also have "\<dots> = attempt provider ?pol q (Suc (Suc (Suc 0))) (base + base * factor)"
    using attempt_retry [where provider = provider and q = q and n = "Suc (Suc 0)"
        and f = RateLimited and pol = ?pol and w = base] a2 r m
    by simp
  also have "\<dots> = \<lparr>outcome = Reply d, attempts = Suc (Suc (Suc 0)),
                      waited = base + base * factor\<rparr>"
    using a3 by (rule attempt_reply)
  finally show ?thesis by (simp add: numeral_3_eq_3)
qed

lemma execute_append:
  "execute provider pol (xs @ q # ys) =
     execute provider pol xs @ attempt provider pol q 1 0 # execute provider pol ys"
  by (simp add: execute_def)


text \<open>
  C7. \<^verbatim>\<open>execute\<close> returns one result per request, each the result of that request alone, so
  no item's failure reaches another item. A request makes at most \<open>max_attempts\<close> attempts
  (3 by default) and the time it waited is the sum of the exponential backoff delays of
  its retried attempts; a rate-limit signal before the cap is followed by a retry after the
  backoff delay. With the default policy, two rate-limit signals and then an answer give
  that answer after two backoff delays. A request that is rate-limited on every attempt
  ends as the typed failure \<^verbatim>\<open>RateLimited\<close> of that item, after \<open>max_attempts\<close> attempts.
\<close>

theorem execute_retries_each_item:
  "length (execute provider policy batch) = length batch \<and>
   execute provider policy (xs @ request # ys) =
     execute provider policy xs @ attempt provider policy request 1 0
       # execute provider policy ys \<and>
   attempts (attempt provider policy request 1 0) \<le> max 1 (max_attempts policy) \<and>
   waited (attempt provider policy request 1 0) =
     (\<Sum>j = 1..<attempts (attempt provider policy request 1 0).
        base_delay policy * backoff_factor policy ^ (j - 1)) \<and>
   (provider request 1 = Failure RateLimited \<and> 1 < max_attempts policy \<longrightarrow>
      attempt provider policy request 1 0 =
        attempt provider policy request 2 (base_delay policy)) \<and>
   (provider request 1 = Failure RateLimited \<and> provider request 2 = Failure RateLimited \<and>
    provider request 3 = Reply d \<longrightarrow>
      attempt provider (default_policy base factor) request 1 0 =
        \<lparr>outcome = Reply d, attempts = 3, waited = base + base * factor\<rparr>) \<and>
   (1 \<le> max_attempts policy \<and>
    (\<forall>k. 1 \<le> k \<and> k \<le> max_attempts policy \<longrightarrow> provider request k = Failure RateLimited) \<longrightarrow>
      outcome (attempt provider policy request 1 0) = Failure RateLimited \<and>
      attempts (attempt provider policy request 1 0) = max_attempts policy)"
proof (intro conjI impI)
  show "length (execute provider policy batch) = length batch"
    by (simp add: execute_def)
  show "execute provider policy (xs @ request # ys) =
     execute provider policy xs @ attempt provider policy request 1 0
       # execute provider policy ys"
    by (rule execute_append)
  show "attempts (attempt provider policy request 1 0) \<le> max 1 (max_attempts policy)"
    by (rule conjunct2 [OF attempts_range])
  show "waited (attempt provider policy request 1 0) =
     (\<Sum>j = 1..<attempts (attempt provider policy request 1 0).
        base_delay policy * backoff_factor policy ^ (j - 1))"
    using waited_backoff [of provider policy request 1 0] by simp
next
  assume a: "provider request 1 = Failure RateLimited \<and> 1 < max_attempts policy"
  have "retriable RateLimited" by (simp add: retriable_def)
  with a attempt_retry [where provider = provider and q = request and n = 1
      and f = RateLimited and pol = policy and w = 0]
  show "attempt provider policy request 1 0 =
        attempt provider policy request 2 (base_delay policy)"
    by (simp add: numeral_2_eq_2)
next
  assume a: "provider request 1 = Failure RateLimited \<and> provider request 2 = Failure RateLimited \<and>
    provider request 3 = Reply d"
  then have a1: "provider request 1 = Failure RateLimited"
    and a2: "provider request 2 = Failure RateLimited" and a3: "provider request 3 = Reply d"
    by blast+
  show "attempt provider (default_policy base factor) request 1 0 =
        \<lparr>outcome = Reply d, attempts = 3, waited = base + base * factor\<rparr>"
    by (rule scenario_D [where provider = provider and q = request, OF a1 a2 a3])
next
  assume a: "1 \<le> max_attempts policy \<and>
    (\<forall>k. 1 \<le> k \<and> k \<le> max_attempts policy \<longrightarrow> provider request k = Failure RateLimited)"
  have r: "retriable RateLimited" by (simp add: retriable_def)
  from a r have all: "\<forall>k. 1 \<le> k \<and> k \<le> max_attempts policy \<longrightarrow>
      (\<exists>f. provider request k = Failure f \<and> retriable f)"
    by auto
  from a have last: "provider request (max_attempts policy) = Failure RateLimited" by auto
  note ex = exhausted [where provider = provider and q = request and n = 1
      and pol = policy and w = 0]
  from ex all a last
  show "outcome (attempt provider policy request 1 0) = Failure RateLimited"
    by simp
  from ex all a
  show "attempts (attempt provider policy request 1 0) = max_attempts policy"
    by simp
qed

theorem execute_retries_each_item_witness:
  "(\<lambda>q n. if q = ''flaky'' \<and> n < (3::nat) then Failure RateLimited
              else if q = ''down'' then Failure RateLimited else Reply q) ''flaky'' 1 = Failure RateLimited \<and>
   (\<lambda>q n. if q = ''flaky'' \<and> n < (3::nat) then Failure RateLimited
              else if q = ''down'' then Failure RateLimited else Reply q) ''flaky'' 2 = Failure RateLimited \<and>
   (\<lambda>q n. if q = ''flaky'' \<and> n < (3::nat) then Failure RateLimited
              else if q = ''down'' then Failure RateLimited else Reply q) ''flaky'' 3 = Reply ''flaky'' \<and>
   execute (\<lambda>q n. if q = ''flaky'' \<and> n < (3::nat) then Failure RateLimited
              else if q = ''down'' then Failure RateLimited else Reply q) (default_policy 100 2) [''ok'', ''flaky'', ''down''] =
     [\<lparr>outcome = Reply ''ok'', attempts = 1, waited = 0\<rparr>,
      \<lparr>outcome = Reply ''flaky'', attempts = 3, waited = 300\<rparr>,
      \<lparr>outcome = Failure RateLimited, attempts = 3, waited = 300\<rparr>]"
proof -
  let ?p = "(\<lambda>q n. if q = ''flaky'' \<and> n < (3::nat) then Failure RateLimited
              else if q = ''down'' then Failure RateLimited else Reply q)"
  let ?pol = "default_policy 100 2"
  have f1: "?p ''flaky'' 1 = Failure RateLimited" by simp
  have f2: "?p ''flaky'' 2 = Failure RateLimited" by simp
  have f3: "?p ''flaky'' 3 = Reply ''flaky''" by simp
  have e: "execute ?p ?pol [''ok'', ''flaky'', ''down''] =
     [\<lparr>outcome = Reply ''ok'', attempts = 1, waited = 0\<rparr>,
      \<lparr>outcome = Reply ''flaky'', attempts = 3, waited = 300\<rparr>,
      \<lparr>outcome = Failure RateLimited, attempts = 3, waited = 300\<rparr>]"
    by code_simp
  from execute_retries_each_item
    [of ?p ?pol "[''ok'', ''flaky'', ''down'']" "[''ok'']" "''flaky''" "[''down'']" "''flaky''" 100 2]
    f1 f2 f3 e
  show ?thesis by simp
qed

subsection \<open>SignatureRetriever\<close>

declare paginate.simps [simp del]

lemma dedupe_signatures:
  "distinct (map entry_signature (dedupe seen xs)) \<and>
   set (map entry_signature (dedupe seen xs)) = set (map entry_signature xs) - set seen"
proof (induction xs arbitrary: seen)
  case Nil
  show ?case by simp
next
  case (Cons x xs)
  show ?case
  proof (cases "entry_signature x \<in> set seen")
    case True
    with Cons [of seen] show ?thesis by auto
  next
    case False
    with Cons [of "entry_signature x # seen"] show ?thesis by auto
  qed
qed

lemma distinct_map_sort_key:
  "distinct (map f (sort_key g xs)) = distinct (map f xs)"
  by (simp add: distinct_map)

lemma distinct_count_list:
  "distinct xs \<Longrightarrow> count_list xs x = (if x \<in> set xs then 1 else 0)"
  by (induction xs) auto

lemma paginate_no_bound: "paginate (Suc n) None xs = xs"
proof (induction "Suc n" "None :: int option" xs rule: paginate.induct)
  case (1 remaining)
  show ?case
  proof (cases "remaining = []")
    case True
    then show ?thesis by (subst paginate.simps) simp
  next
    case False
    then have "take (Suc n) remaining \<noteq> []" by (cases remaining) auto
    with 1 show ?thesis
      by (subst paginate.simps) (simp add: older_than_def)
  qed
qed

lemma retrieve_signatures:
  "set (map entry_signature (retrieve history limit addresses from_date to_date)) =
     entry_signature `
       {x. \<not> newer_than to_date x \<and>
           (\<exists>a \<in> set addresses. x \<in> set (paginate limit from_date (history a)))}"
proof -
  have "set (map entry_signature (retrieve history limit addresses from_date to_date)) =
        entry_signature ` set (dedupe [] (filter (\<lambda>x. \<not> newer_than to_date x)
             (concat (map (\<lambda>address. paginate limit from_date (history address)) addresses))))"
    by (simp add: retrieve_def)
  also have "\<dots> = entry_signature ` set (filter (\<lambda>x. \<not> newer_than to_date x)
             (concat (map (\<lambda>address. paginate limit from_date (history address)) addresses)))"
    using dedupe_signatures [of "[]"] by simp
  also have "\<dots> = entry_signature `
       {x. \<not> newer_than to_date x \<and>
           (\<exists>a \<in> set addresses. x \<in> set (paginate limit from_date (history a)))}"
    by (rule arg_cong [where f = "(`) entry_signature"]) auto
  finally show ?thesis .
qed

lemma retrieve_distinct:
  "distinct (map entry_signature (retrieve history limit addresses from_date to_date))"
  unfolding retrieve_def distinct_map_sort_key
  using dedupe_signatures by blast

lemma retrieve_sorted:
  "sorted (map block_time (retrieve history limit addresses from_date to_date))"
  by (simp add: retrieve_def)


text \<open>
  C6. For every list of addresses, whatever their listings share, every signature that the
  pagination of some address yields (and that is not newer than \<^verbatim>\<open>to_date\<close>) occurs exactly
  once in the output of \<^verbatim>\<open>retrieve\<close>, no other signature occurs, and the output is ordered by
  block time ascending.
\<close>

theorem retrieve_deduplicated_and_ordered:
  "count_list (map entry_signature (retrieve history limit addresses from_date to_date)) s =
     (if s \<in> entry_signature `
          {x. \<not> newer_than to_date x \<and>
              (\<exists>a \<in> set addresses. x \<in> set (paginate limit from_date (history a)))}
      then 1 else 0) \<and>
   sorted (map block_time (retrieve history limit addresses from_date to_date))"
  using distinct_count_list [OF retrieve_distinct, of history limit addresses from_date to_date s]
    retrieve_signatures [of history limit addresses from_date to_date]
    retrieve_sorted [of history limit addresses from_date to_date]
  by simp

theorem retrieve_deduplicated_and_ordered_witness:
  "retrieve (\<lambda>a. if a = ''A''
          then [\<lparr>entry_signature = ''s3'', block_time = 30\<rparr>,
                \<lparr>entry_signature = ''s1'', block_time = 10\<rparr>]
          else [\<lparr>entry_signature = ''s3'', block_time = 30\<rparr>,
                \<lparr>entry_signature = ''s2'', block_time = 20\<rparr>]) 300 [''A'', ''B''] None None =
     [\<lparr>entry_signature = ''s1'', block_time = 10\<rparr>,
      \<lparr>entry_signature = ''s2'', block_time = 20\<rparr>,
      \<lparr>entry_signature = ''s3'', block_time = 30\<rparr>] \<and>
   count_list (map entry_signature (retrieve (\<lambda>a. if a = ''A''
          then [\<lparr>entry_signature = ''s3'', block_time = 30\<rparr>,
                \<lparr>entry_signature = ''s1'', block_time = 10\<rparr>]
          else [\<lparr>entry_signature = ''s3'', block_time = 30\<rparr>,
                \<lparr>entry_signature = ''s2'', block_time = 20\<rparr>]) 300 [''A'', ''B''] None None)) ''s3'' = 1 \<and>
   sorted (map block_time (retrieve (\<lambda>a. if a = ''A''
          then [\<lparr>entry_signature = ''s3'', block_time = 30\<rparr>,
                \<lparr>entry_signature = ''s1'', block_time = 10\<rparr>]
          else [\<lparr>entry_signature = ''s3'', block_time = 30\<rparr>,
                \<lparr>entry_signature = ''s2'', block_time = 20\<rparr>]) 300 [''A'', ''B''] None None))"
proof -
  have p: "paginate 300 None xs = xs" for xs
    using paginate_no_bound [of 299 xs] by simp
  have r: "retrieve (\<lambda>a. if a = ''A''
          then [\<lparr>entry_signature = ''s3'', block_time = 30\<rparr>,
                \<lparr>entry_signature = ''s1'', block_time = 10\<rparr>]
          else [\<lparr>entry_signature = ''s3'', block_time = 30\<rparr>,
                \<lparr>entry_signature = ''s2'', block_time = 20\<rparr>]) 300 [''A'', ''B''] None None =
     [\<lparr>entry_signature = ''s1'', block_time = 10\<rparr>,
      \<lparr>entry_signature = ''s2'', block_time = 20\<rparr>,
      \<lparr>entry_signature = ''s3'', block_time = 30\<rparr>]"
    by (simp add: retrieve_def p newer_than_def)
  from retrieve_deduplicated_and_ordered [of "(\<lambda>a. if a = ''A''
          then [\<lparr>entry_signature = ''s3'', block_time = 30\<rparr>,
                \<lparr>entry_signature = ''s1'', block_time = 10\<rparr>]
          else [\<lparr>entry_signature = ''s3'', block_time = 30\<rparr>,
                \<lparr>entry_signature = ''s2'', block_time = 20\<rparr>])" 300 "[''A'', ''B'']" None None "''s3''"] r
  show ?thesis by simp
qed

subsection \<open>LifecycleReconstructor\<close>

lemma sized_start: "opens e \<Longrightarrow> sized (start e)"
  by (simp add: sized_def start_def)

lemma sized_fold_event: "sized l \<Longrightarrow> sized (fold_event l e)"
  by (cases "events l") (simp_all add: sized_def fold_event_def)

lemma sized_terminate: "sized l \<Longrightarrow> sized (terminate st l e)"
  by (simp add: sized_def terminate_def)

lemma length_fold_event: "sized l \<Longrightarrow> 2 \<le> length (events (terminate st (fold_event l e) e'))"
  by (cases "events l") (simp_all add: sized_def fold_event_def terminate_def)

lemma settled_terminate_liquidated:
  "sized l \<Longrightarrow> settled (terminate Liquidated (fold_event l e) e')"
  by (simp add: settled_def sized_terminate sized_fold_event length_fold_event)
     (simp add: terminate_def)

lemma settled_terminate_zero:
  "sized l \<Longrightarrow> open_size (fold_event l e) = 0 \<Longrightarrow> settled (terminate st (fold_event l e) e')"
  by (simp add: settled_def sized_terminate sized_fold_event length_fold_event)
     (simp add: terminate_def)

lemma sum_before_last:
  assumes "2 \<le> length xs"
  shows "sum_list (map f (tl xs)) = sum_list (map f (tl (butlast xs))) + f (last xs)"
proof -
  from assms obtain x ys where xs: "xs = x # ys" and ys: "ys \<noteq> []"
    by (cases xs) (auto simp: Suc_le_eq)
  have "sum_list (map f (butlast ys @ [last ys])) = sum_list (map f (butlast ys)) + f (last ys)"
    by simp
  with ys have "sum_list (map f ys) = sum_list (map f (butlast ys)) + f (last ys)"
    by simp
  with xs ys show ?thesis by simp
qed

lemma settled_active: "sized l \<Longrightarrow> lifecycle_status l = Active \<Longrightarrow> settled l"
  by (simp add: settled_def)

lemma status_start: "lifecycle_status (start e) = Active"
  by (simp add: start_def)

lemma status_fold_event: "lifecycle_status (fold_event l e) = lifecycle_status l"
  by (simp add: fold_event_def)

lemma step_ok: "state_ok st \<Longrightarrow> state_ok (step st e)"
proof (cases st)
  case (Pair finished cur)
  assume ok: "state_ok st"
  show ?thesis
  proof (cases cur)
    case None
    with Pair ok show ?thesis
      by (auto simp: state_ok_def sized_start status_start)
  next
    case (Some l)
    with Pair ok have l: "sized l" "lifecycle_status l = Active"
      and f: "\<forall>x \<in> set finished. settled x"
      by (auto simp: state_ok_def)
    from l(1) have fe: "sized (fold_event l e)" by (rule sized_fold_event)
    show ?thesis
      using Pair Some l f fe
      by (auto simp: state_ok_def settled_terminate_liquidated [OF l(1)]
            settled_terminate_zero [OF l(1)] status_fold_event)
  qed
qed

lemma foldl_step_ok: "state_ok st \<Longrightarrow> state_ok (foldl step st es)"
  by (induction es arbitrary: st) (simp_all add: step_ok)

lemma run_group_settled: "l \<in> set (run_group es) \<Longrightarrow> settled l"
proof -
  assume l: "l \<in> set (run_group es)"
  have "state_ok ([], None)" by (simp add: state_ok_def)
  then have ok: "state_ok (foldl step ([], None) es)" by (rule foldl_step_ok)
  from l show ?thesis
    using ok
    by (auto simp: run_group_def lifecycles_def state_ok_def settled_active split: option.splits)
qed

lemma reconstruct_settled: "l \<in> set (reconstruct es) \<Longrightarrow> settled l"
  by (auto simp: reconstruct_def dest: run_group_settled)


text \<open>
  C5, as stated, fails on the state machine of 4.5: a Liquidate event ends the lifecycle
  "regardless of remaining size", so an Open of 100 followed by a Liquidate of 60 gives a
  liquidated lifecycle whose size is 40, with the \<^verbatim>\<open>InconsistentLifecycle\<close> warning of
  section 7 attached.
\<close>

theorem liquidation_leaves_size:
  "map lifecycle_status (reconstruct [\<lparr>kind = Open, position_key = ''P'', timestamp = 1, signature = ''s1'', side = Long,
       size_delta = 100, price = 150, fee = 1, collateral_delta = 10, request_type = None\<rparr>,
     \<lparr>kind = Liquidate, position_key = ''P'', timestamp = 2, signature = ''s2'', side = Long,
       size_delta = 60, price = 140, fee = 1, collateral_delta = 0, request_type = None\<rparr>]) = [Liquidated] \<and>
   map open_size (reconstruct [\<lparr>kind = Open, position_key = ''P'', timestamp = 1, signature = ''s1'', side = Long,
       size_delta = 100, price = 150, fee = 1, collateral_delta = 10, request_type = None\<rparr>,
     \<lparr>kind = Liquidate, position_key = ''P'', timestamp = 2, signature = ''s2'', side = Long,
       size_delta = 60, price = 140, fee = 1, collateral_delta = 0, request_type = None\<rparr>]) = [40] \<and>
   map warnings (reconstruct [\<lparr>kind = Open, position_key = ''P'', timestamp = 1, signature = ''s1'', side = Long,
       size_delta = 100, price = 150, fee = 1, collateral_delta = 10, request_type = None\<rparr>,
     \<lparr>kind = Liquidate, position_key = ''P'', timestamp = 2, signature = ''s2'', side = Long,
       size_delta = 60, price = 140, fee = 1, collateral_delta = 0, request_type = None\<rparr>]) = [[InconsistentLifecycle]]"
  by (simp add: reconstruct_def run_group_def lifecycles_def opens_def start_def fold_event_def
        terminate_def signed_delta_def increases_def decreases_def)

text \<open>
  C5, amended. Every lifecycle that \<^verbatim>\<open>reconstruct\<close> produces starts with an opening event, and
  its running size after folding all of its non-terminal events is the size at entry plus the
  sum of the signed size deltas of those events: for an active lifecycle every event is
  non-terminal, for a closed or liquidated one the terminal event is the last and the size
  before it is \<open>open_size l - signed_delta (last (events l))\<close>. At a close the size reaches
  exactly zero; at a liquidation it reaches zero or the lifecycle carries the
  \<^verbatim>\<open>InconsistentLifecycle\<close> warning.
\<close>

theorem reconstruct_running_size:
  "\<forall>l \<in> set (reconstruct es).
     events l \<noteq> [] \<and> opens (hd (events l)) \<and>
     (lifecycle_status l = Active \<longrightarrow>
        open_size l = size_delta (hd (events l)) + (\<Sum>e\<leftarrow>tl (events l). signed_delta e)) \<and>
     (lifecycle_status l \<noteq> Active \<longrightarrow>
        open_size l - signed_delta (last (events l)) =
          size_delta (hd (events l)) + (\<Sum>e\<leftarrow>tl (butlast (events l)). signed_delta e)) \<and>
     (lifecycle_status l = Closed \<longrightarrow> open_size l = 0) \<and>
     (lifecycle_status l = Liquidated \<longrightarrow>
        open_size l = 0 \<or> warnings l = [InconsistentLifecycle])"
proof
  fix l
  assume "l \<in> set (reconstruct es)"
  then have s: "settled l" by (rule reconstruct_settled)
  then have z: "sized l" by (simp add: settled_def)
  have before: "open_size l - signed_delta (last (events l)) =
      size_delta (hd (events l)) + (\<Sum>e\<leftarrow>tl (butlast (events l)). signed_delta e)"
    if "lifecycle_status l \<noteq> Active"
  proof -
    from s that have "2 \<le> length (events l)" by (simp add: settled_def)
    from sum_before_last [OF this, of signed_delta] z show ?thesis
      by (simp add: sized_def)
  qed
  from s z before
  show "events l \<noteq> [] \<and> opens (hd (events l)) \<and>
     (lifecycle_status l = Active \<longrightarrow>
        open_size l = size_delta (hd (events l)) + (\<Sum>e\<leftarrow>tl (events l). signed_delta e)) \<and>
     (lifecycle_status l \<noteq> Active \<longrightarrow>
        open_size l - signed_delta (last (events l)) =
          size_delta (hd (events l)) + (\<Sum>e\<leftarrow>tl (butlast (events l)). signed_delta e)) \<and>
     (lifecycle_status l = Closed \<longrightarrow> open_size l = 0) \<and>
     (lifecycle_status l = Liquidated \<longrightarrow>
        open_size l = 0 \<or> warnings l = [InconsistentLifecycle])"
    unfolding settled_def sized_def by blast
qed

theorem reconstruct_running_size_witness:
  "map lifecycle_status (reconstruct [\<lparr>kind = Open, position_key = ''P'', timestamp = 1, signature = ''s1'', side = Long,
       size_delta = 100, price = 150, fee = 1, collateral_delta = 10, request_type = None\<rparr>,
     \<lparr>kind = Decrease, position_key = ''P'', timestamp = 2, signature = ''s2'', side = Long,
       size_delta = 100, price = 160, fee = 1, collateral_delta = 0, request_type = None\<rparr>]) = [Closed] \<and>
   map open_size (reconstruct [\<lparr>kind = Open, position_key = ''P'', timestamp = 1, signature = ''s1'', side = Long,
       size_delta = 100, price = 150, fee = 1, collateral_delta = 10, request_type = None\<rparr>,
     \<lparr>kind = Decrease, position_key = ''P'', timestamp = 2, signature = ''s2'', side = Long,
       size_delta = 100, price = 160, fee = 1, collateral_delta = 0, request_type = None\<rparr>]) = [0] \<and>
   map (length \<circ> events) (reconstruct [\<lparr>kind = Open, position_key = ''P'', timestamp = 1, signature = ''s1'', side = Long,
       size_delta = 100, price = 150, fee = 1, collateral_delta = 10, request_type = None\<rparr>,
     \<lparr>kind = Decrease, position_key = ''P'', timestamp = 2, signature = ''s2'', side = Long,
       size_delta = 100, price = 160, fee = 1, collateral_delta = 0, request_type = None\<rparr>]) = [2]"
proof -
  let ?es = "[\<lparr>kind = Open, position_key = ''P'', timestamp = 1, signature = ''s1'', side = Long,
       size_delta = 100, price = 150, fee = 1, collateral_delta = 10, request_type = None\<rparr>,
     \<lparr>kind = Decrease, position_key = ''P'', timestamp = 2, signature = ''s2'', side = Long,
       size_delta = 100, price = 160, fee = 1, collateral_delta = 0, request_type = None\<rparr>]"
  have s: "map lifecycle_status (reconstruct ?es) = [Closed]"
    by (simp add: reconstruct_def run_group_def lifecycles_def opens_def start_def
          fold_event_def terminate_def signed_delta_def increases_def decreases_def
          flagged_liquidation_def)
  have n: "map (length \<circ> events) (reconstruct ?es) = [2]"
    by (simp add: reconstruct_def run_group_def lifecycles_def opens_def start_def
          fold_event_def terminate_def signed_delta_def increases_def decreases_def
          flagged_liquidation_def)
  from s obtain l where l: "reconstruct ?es = [l]" "lifecycle_status l = Closed"
    by (cases "reconstruct ?es") auto
  from reconstruct_running_size [of ?es] l have "open_size l = 0" by simp
  with l s n show ?thesis by simp
qed

end
